theory Spec2Isabelle
  imports Main
begin

section \<open>IA Launcher: the game session lifecycle (\<^verbatim>\<open>src/ialauncher/game.py\<close>)\<close>

text \<open>
  The class \<^verbatim>\<open>Game\<close> is embedded as functions over an explicit world: the object's
  attributes are a record, the file system, the working directory, the network requests
  and the spawned processes are a second record, and every exception the Python can
  raise is a value. What the standard library does (paths, files, archives, the INI
  reader and writer) is not part of the repository; it is modelled in the first
  subsections, with each assumption written where it is made.
\<close>

subsection \<open>Python strings\<close>

text \<open>
  A \<^verbatim>\<open>str\<close> is a \<^typ>\<open>string\<close>; each character stands for one code point below 256.
\<close>

text \<open>\<^verbatim>\<open>s.endswith(suf)\<close>\<close>

definition endswith :: "string \<Rightarrow> string \<Rightarrow> bool" where
  "endswith s suf = (length suf \<le> length s \<and> drop (length s - length suf) s = suf)"

text \<open>\<^verbatim>\<open>s.split(c)\<close> for a one-character separator: never the empty list.\<close>

fun split_sep :: "char \<Rightarrow> string \<Rightarrow> string list" where
  "split_sep c [] = [[]]"
| "split_sep c (x # xs) =
     (if x = c then [] # split_sep c xs
      else (case split_sep c xs of [] \<Rightarrow> [[x]] | y # ys \<Rightarrow> (x # y) # ys))"

text \<open>\<^verbatim>\<open>ch.isspace()\<close> on the code points below 256.\<close>

definition isspace :: "char \<Rightarrow> bool" where
  "isspace c = (of_char c \<in> {9, 10, 11, 12, 13, 28, 29, 30, 31, 32, 133, 160 :: nat})"

text \<open>
  \<^verbatim>\<open>s.split()\<close>: the maximal runs of characters that are not white space. The first
  argument holds the run being read, reversed.
\<close>

fun split_ws :: "string \<Rightarrow> string \<Rightarrow> string list" where
  "split_ws acc [] = (if acc = [] then [] else [rev acc])"
| "split_ws acc (c # cs) =
     (if isspace c then (if acc = [] then split_ws [] cs else rev acc # split_ws [] cs)
      else split_ws (c # acc) cs)"

definition py_split :: "string \<Rightarrow> string list" where
  "py_split s = split_ws [] s"

text \<open>\<^verbatim>\<open>sep.join(xs)\<close>\<close>

fun str_join :: "string \<Rightarrow> string list \<Rightarrow> string" where
  "str_join sep [] = []"
| "str_join sep [x] = x"
| "str_join sep (x # y # ys) = x @ sep @ str_join sep (y # ys)"

text \<open>Truth value of an attribute that is \<^verbatim>\<open>None\<close> or a \<^verbatim>\<open>str\<close>.\<close>

definition truthy :: "string option \<Rightarrow> bool" where
  "truthy v = (case v of None \<Rightarrow> False | Some s \<Rightarrow> s \<noteq> [])"

subsection \<open>Paths (\<^verbatim>\<open>posixpath\<close>)\<close>

definition is_abs :: "string \<Rightarrow> bool" where
  "is_abs p = (case p of [] \<Rightarrow> False | c # _ \<Rightarrow> c = CHR ''/'')"

text \<open>\<^verbatim>\<open>os.path.join(a, b)\<close>\<close>

definition pjoin :: "string \<Rightarrow> string \<Rightarrow> string" where
  "pjoin a b =
     (if is_abs b then b
      else if a = [] then b
      else if last a = CHR ''/'' then a @ b
      else a @ ''/'' @ b)"

text \<open>\<^verbatim>\<open>os.path.basename(p)\<close>: what follows the last slash.\<close>

definition basename :: "string \<Rightarrow> string" where
  "basename p = rev (takeWhile (\<lambda>c. c \<noteq> CHR ''/'') (rev p))"

text \<open>
  \<^verbatim>\<open>os.path.dirname(p)\<close>: what precedes the last slash, with that slash and the ones
  before it removed unless nothing else is left.
\<close>

definition dirname :: "string \<Rightarrow> string" where
  "dirname p =
     (let head = rev (dropWhile (\<lambda>c. c \<noteq> CHR ''/'') (rev p)) in
      if list_ex (\<lambda>c. c \<noteq> CHR ''/'') head
      then rev (dropWhile (\<lambda>c. c = CHR ''/'') (rev head))
      else head)"

text \<open>
  The directories above a path, outermost first: the prefixes that end before a slash.
  The first argument holds the prefix read so far, reversed.
\<close>

fun ancestors_from :: "string \<Rightarrow> string \<Rightarrow> string list" where
  "ancestors_from acc [] = []"
| "ancestors_from acc (c # cs) =
     (if c = CHR ''/'' then
        (if acc = [] then ancestors_from (c # acc) cs
         else rev acc # ancestors_from (c # acc) cs)
      else ancestors_from (c # acc) cs)"

definition ancestors :: "string \<Rightarrow> string list" where
  "ancestors p = ancestors_from [] p"

subsection \<open>The world outside the object\<close>

text \<open>
  Regular files and directories are kept by the absolute path under which they were
  created: a path is resolved against the working directory with \<open>pjoin\<close> and then
  compared as a string, so \<^verbatim>\<open>.\<close>, \<^verbatim>\<open>..\<close>, doubled slashes, links and permissions
  are outside the model. \<open>fetched\<close> lists the URLs requested from the network and
  \<open>launched\<close> the processes spawned, each with its argument vector and the working
  directory it inherits.
\<close>

record world =
  files :: "string \<rightharpoonup> string"
  dirs :: "string set"
  cwd :: string
  fetched :: "string list"
  launched :: "(string list \<times> string) list"

datatype exn =
  KeyError | TypeError | FileNotFoundError | NotADirectoryError | IsADirectoryError
  | FileExistsError | SameFileError | URLError | BadZipFile | ParsingError

definition abspath :: "world \<Rightarrow> string \<Rightarrow> string" where
  "abspath w p = pjoin (cwd w) p"

definition isdir :: "world \<Rightarrow> string \<Rightarrow> bool" where
  "isdir w p = (p \<noteq> [] \<and> abspath w p \<in> dirs w)"

definition isfile :: "world \<Rightarrow> string \<Rightarrow> bool" where
  "isfile w p = (p \<noteq> [] \<and> files w (abspath w p) \<noteq> None)"

definition path_exists :: "world \<Rightarrow> string \<Rightarrow> bool" where
  "path_exists w p = (if isdir w p then True else isfile w p)"

text \<open>\<^verbatim>\<open>os.chdir(p)\<close>\<close>

definition chdir :: "string \<Rightarrow> world \<Rightarrow> exn + world" where
  "chdir p w =
     (if isdir w p then Inr (w\<lparr>cwd := abspath w p\<rparr>)
      else if isfile w p then Inl NotADirectoryError
      else Inl FileNotFoundError)"

text \<open>
  \<^verbatim>\<open>with open(p, 'w') as f: f.write(s)\<close>: the file is created or replaced; the
  directory it lies in must exist.
\<close>

definition write_file :: "string \<Rightarrow> string \<Rightarrow> world \<Rightarrow> exn + world" where
  "write_file p s w =
     (let a = abspath w p in
      if p = [] then Inl FileNotFoundError
      else if a \<in> dirs w then Inl IsADirectoryError
      else if dirname a \<in> dirs w then Inr (w\<lparr>files := (files w)(a \<mapsto> s)\<rparr>)
      else Inl FileNotFoundError)"

text \<open>\<^verbatim>\<open>with open(p, 'r') as f: f.read()\<close>\<close>

definition read_file :: "string \<Rightarrow> world \<Rightarrow> exn + string" where
  "read_file p w =
     (if p = [] then Inl FileNotFoundError
      else if abspath w p \<in> dirs w then Inl IsADirectoryError
      else (case files w (abspath w p) of None \<Rightarrow> Inl FileNotFoundError | Some s \<Rightarrow> Inr s))"

text \<open>\<^verbatim>\<open>os.remove(p)\<close>\<close>

definition remove_file :: "string \<Rightarrow> world \<Rightarrow> exn + world" where
  "remove_file p w =
     (if isfile w p then Inr (w\<lparr>files := (files w)(abspath w p := None)\<rparr>)
      else Inl FileNotFoundError)"

text \<open>
  \<^verbatim>\<open>os.makedirs(p, exist_ok=True)\<close>: the directory and the missing ones above it are
  created; a regular file in the way is an error.
\<close>

definition makedirs :: "string \<Rightarrow> world \<Rightarrow> exn + world" where
  "makedirs p w =
     (let a = abspath w p in
      if p = [] then Inl FileNotFoundError
      else if files w a \<noteq> None then Inl FileExistsError
      else if list_ex (\<lambda>d. files w d \<noteq> None) (ancestors a) then Inl NotADirectoryError
      else Inr (w\<lparr>dirs := dirs w \<union> set (ancestors a @ [a])\<rparr>))"

text \<open>
  \<^verbatim>\<open>shutil.copy(src, dst)\<close>: into the directory \<open>dst\<close> under the source's base name,
  or onto the file \<open>dst\<close>.
\<close>

definition copy :: "string \<Rightarrow> string \<Rightarrow> world \<Rightarrow> exn + world" where
  "copy src dst w =
     (let dst' = (if isdir w dst then pjoin dst (basename src) else dst) in
      case read_file src w of
        Inl e \<Rightarrow> Inl e
      | Inr s \<Rightarrow> if abspath w src = abspath w dst' then Inl SameFileError
                else write_file dst' s w)"

subsection \<open>What is taken from outside the repository\<close>

text \<open>
  \<^verbatim>\<open>RawConfigParser\<close> holds the values of the \<^verbatim>\<open>[DEFAULT]\<close> section and, by name,
  the key-value mapping of every other section.
\<close>

record config =
  defaults :: "string \<rightharpoonup> string"
  sections :: "string \<rightharpoonup> (string \<rightharpoonup> string)"

text \<open>
  The environment of a run: the emulator command found when the module is imported
  (\<^verbatim>\<open>DOSBOX = get_dosbox_path()\<close>), \<^verbatim>\<open>urllib.parse.unquote\<close>, the body the network
  returns for a URL (\<open>None\<close>: the request fails), the members (name and contents) of
  an archive given its bytes (\<open>None\<close>: not an archive), the text
  \<^verbatim>\<open>RawConfigParser.write\<close> produces and the document \<^verbatim>\<open>RawConfigParser.read\<close>
  parses (\<open>None\<close>: a parsing error), and what the emulator and its user do to the
  files and directories while a process with the given arguments runs.
\<close>

record env =
  DOSBOX :: string
  unquote :: "string \<Rightarrow> string"
  urlopen :: "string \<rightharpoonup> string"
  zip_members :: "string \<rightharpoonup> (string \<times> string) list"
  ini_dump :: "config \<Rightarrow> string"
  ini_parse :: "string \<rightharpoonup> config"
  session :: "string list \<Rightarrow> (string \<rightharpoonup> string) \<times> string set
                \<Rightarrow> (string \<rightharpoonup> string) \<times> string set"

definition empty_config :: config where
  "empty_config = \<lparr>defaults = Map.empty, sections = Map.empty\<rparr>"

text \<open>\<^verbatim>\<open>c.read(p)\<close> on a fresh parser: a file that cannot be opened is skipped.\<close>

definition config_read :: "env \<Rightarrow> string \<Rightarrow> world \<Rightarrow> exn + config" where
  "config_read env p w =
     (case read_file p w of
        Inl e \<Rightarrow> Inr empty_config
      | Inr text \<Rightarrow> (case ini_parse env text of None \<Rightarrow> Inl ParsingError | Some c \<Rightarrow> Inr c))"

text \<open>
  \<^verbatim>\<open>c[sec].get(k)\<close> for a section that exists: the section's value, else the default's,
  else \<^verbatim>\<open>None\<close>.
\<close>

definition cfg_get :: "config \<Rightarrow> string \<Rightarrow> string \<Rightarrow> string option" where
  "cfg_get c sec k =
     (case sections c sec of
        None \<Rightarrow> None
      | Some m \<Rightarrow> (case m k of Some v \<Rightarrow> Some v | None \<Rightarrow> defaults c k))"

text \<open>\<^verbatim>\<open>c[sec][k] = v\<close>\<close>

definition cfg_set :: "string \<Rightarrow> string \<Rightarrow> string \<Rightarrow> config \<Rightarrow> exn + config" where
  "cfg_set sec k v c =
     (case sections c sec of
        None \<Rightarrow> Inl KeyError
      | Some m \<Rightarrow> Inr (c\<lparr>sections := (sections c)(sec \<mapsto> m(k \<mapsto> v))\<rparr>))"

text \<open>
  \<^verbatim>\<open>request.urlretrieve(u, filename)\<close>: the URL is requested, then the body is written.
\<close>

definition urlretrieve :: "env \<Rightarrow> string \<Rightarrow> string \<Rightarrow> world \<Rightarrow> exn option \<times> world" where
  "urlretrieve env u filename w =
     (let w1 = w\<lparr>fetched := fetched w @ [u]\<rparr> in
      case urlopen env u of
        None \<Rightarrow> (Some URLError, w1)
      | Some body \<Rightarrow>
          (case write_file filename body w1 of
             Inl e \<Rightarrow> (Some e, w1)
           | Inr w2 \<Rightarrow> (None, w2)))"

text \<open>
  One member of \<^verbatim>\<open>ZipFile.extractall(target)\<close>: the directories above the member are
  created when nothing is there, then the member is written. Member names are the
  relative names \<^verbatim>\<open>ZipFile\<close> has already cleaned; entries that are directories are
  left out.
\<close>

definition extract_member :: "string \<Rightarrow> string \<times> string \<Rightarrow> world \<Rightarrow> exn + world" where
  "extract_member target m w =
     (let targetpath = pjoin target (fst m); upperdirs = dirname targetpath in
      case (if upperdirs \<noteq> [] \<and> \<not> path_exists w upperdirs then makedirs upperdirs w
            else Inr w) of
        Inl e \<Rightarrow> Inl e
      | Inr w1 \<Rightarrow> write_file targetpath (snd m) w1)"

fun extractall :: "string \<Rightarrow> (string \<times> string) list \<Rightarrow> world \<Rightarrow> exn option \<times> world" where
  "extractall target [] w = (None, w)"
| "extractall target (m # ms) w =
     (case extract_member target m w of
        Inl e \<Rightarrow> (Some e, w)
      | Inr w1 \<Rightarrow> extractall target ms w1)"

text \<open>\<^verbatim>\<open>subprocess.Popen(argv)\<close>: the child inherits the working directory.\<close>

definition popen :: "string list \<Rightarrow> world \<Rightarrow> world" where
  "popen argv w = w\<lparr>launched := launched w @ [(argv, cwd w)]\<rparr>"

text \<open>\<^verbatim>\<open>child_process.wait()\<close>: the files are what the session left.\<close>

definition wait :: "env \<Rightarrow> string list \<Rightarrow> world \<Rightarrow> world" where
  "wait env argv w =
     (case session env argv (files w, dirs w) of (f, d) \<Rightarrow> w\<lparr>files := f, dirs := d\<rparr>)"

subsection \<open>The class \<^verbatim>\<open>Game\<close>\<close>

text \<open>
  \<^verbatim>\<open>self.url\<close> is \<^verbatim>\<open>None\<close>, a string (the empty one, after \<^verbatim>\<open>__init__\<close>) or a list of
  strings.
\<close>

datatype urls = UNone | UStr string | UList "string list"

record game =
  path :: string
  gamedir :: string
  game_identifier :: string
  config :: config
  title :: "string option"
  year :: "string option"
  emulator_start :: "string option"
  dosbox_conf :: "string option"
  url :: urls

text \<open>How a method call ends: the exception raised, if any, the object and the world.\<close>

record outcome =
  raised :: "exn option"
  self :: game
  final :: world

text \<open>\<^verbatim>\<open>Game.__init__(self, path)\<close>, lines 14-26.\<close>

definition Game_init :: "env \<Rightarrow> string \<Rightarrow> world \<Rightarrow> exn + game" where
  "Game_init env p w =
     (case config_read env (pjoin p ''metadata.ini'') w of
        Inl e \<Rightarrow> Inl e
      | Inr c \<Rightarrow>
          (case sections c ''metadata'' of
             None \<Rightarrow> Inl KeyError
           | Some m \<Rightarrow>
               Inr \<lparr>path = p,
                    gamedir = pjoin p ''dosbox_drive_c'',
                    game_identifier = basename p,
                    config = c,
                    title = cfg_get c ''metadata'' ''title'',
                    year = cfg_get c ''metadata'' ''year'',
                    emulator_start = cfg_get c ''metadata'' ''emulator_start'',
                    dosbox_conf = cfg_get c ''metadata'' ''dosbox_conf'',
                    url = (case cfg_get c ''metadata'' ''url'' of
                             None \<Rightarrow> UNone
                           | Some s \<Rightarrow> if s \<noteq> [] then UList (py_split s) else UStr s)\<rparr>))"

text \<open>
  \<^verbatim>\<open>Game.write_metadata(self)\<close>, lines 131-144. Lines 132-141 are five statements
  \<^verbatim>\<open>if self.field: self.config['metadata'][key] = value\<close>; \<open>store_fields\<close> runs them in
  order over the pairs of a key and the value to store (\<open>None\<close> when the attribute is
  false).
\<close>

definition url_text :: "urls \<Rightarrow> string option" where
  "url_text u =
     (case u of
        UNone \<Rightarrow> None
      | UStr s \<Rightarrow> if s \<noteq> [] then Some (str_join [CHR 0x0A] (map (\<lambda>c. [c]) s)) else None
      | UList xs \<Rightarrow> if xs \<noteq> [] then Some (str_join [CHR 0x0A] xs) else None)"

definition if_set :: "string option \<Rightarrow> string option" where
  "if_set v = (if truthy v then v else None)"

fun store_fields :: "(string \<times> string option) list \<Rightarrow> config \<Rightarrow> exn option \<times> config" where
  "store_fields [] c = (None, c)"
| "store_fields ((k, None) # kvs) c = store_fields kvs c"
| "store_fields ((k, Some v) # kvs) c =
     (case cfg_set ''metadata'' k v c of
        Inl e \<Rightarrow> (Some e, c)
      | Inr c' \<Rightarrow> store_fields kvs c')"

definition write_metadata :: "env \<Rightarrow> game \<Rightarrow> world \<Rightarrow> outcome" where
  "write_metadata env g w =
     (case store_fields
             [(''title'', if_set (title g)),
              (''year'', if_set (year g)),
              (''url'', url_text (url g)),
              (''emulator_start'', if_set (emulator_start g)),
              (''dosbox_conf'', if_set (dosbox_conf g))]
             (config g) of
        (Some e, c) \<Rightarrow> \<lparr>raised = Some e, self = g\<lparr>config := c\<rparr>, final = w\<rparr>
      | (None, c) \<Rightarrow>
          (case write_file (pjoin (path g) ''metadata.ini'') (ini_dump env c) w of
             Inl e \<Rightarrow> \<lparr>raised = Some e, self = g\<lparr>config := c\<rparr>, final = w\<rparr>
           | Inr w1 \<Rightarrow> \<lparr>raised = None, self = g\<lparr>config := c\<rparr>, final = w1\<rparr>))"

text \<open>\<^verbatim>\<open>Game.extract_file(self, zipfile)\<close>, lines 125-129.\<close>

definition extract_file :: "env \<Rightarrow> game \<Rightarrow> string \<Rightarrow> world \<Rightarrow> exn option \<times> world" where
  "extract_file env g zipfile w =
     (case read_file zipfile w of
        Inl e \<Rightarrow> (Some e, w)
      | Inr bytes \<Rightarrow>
          (case zip_members env bytes of
             None \<Rightarrow> (Some BadZipFile, w)
           | Some ms \<Rightarrow>
               (case extractall (gamedir g) ms w of
                  (Some e, w1) \<Rightarrow> (Some e, w1)
                | (None, w1) \<Rightarrow>
                    if isfile w1 (pjoin (gamedir g) ''dosbox.conf'')
                    then (case remove_file (pjoin (gamedir g) ''dosbox.conf'') w1 of
                            Inl e \<Rightarrow> (Some e, w1)
                          | Inr w2 \<Rightarrow> (None, w2))
                    else (None, w1))))"

text \<open>
  \<^verbatim>\<open>Game.download_files(self)\<close>, lines 111-123. \<open>fetch_one\<close> is the body of the loop
  and \<open>fetch_all\<close> the loop; within the body, \<open>retrieve\<close> is lines 115-117,
  \<open>is_archive\<close> the test of line 118 and \<open>place\<close> lines 118-123. What the two
  \<^verbatim>\<open>print\<close> calls write is left out.
\<close>

definition retrieve :: "env \<Rightarrow> string \<Rightarrow> string \<Rightarrow> world \<Rightarrow> exn option \<times> world" where
  "retrieve env u filename w =
     (if \<not> isfile w filename then urlretrieve env u filename w else (None, w))"

definition is_archive :: "string \<Rightarrow> bool" where
  "is_archive filename =
     (endswith filename ''zip'' \<or> endswith filename ''ZIP'' \<or> endswith filename ''play'')"

definition place :: "env \<Rightarrow> game \<Rightarrow> string \<Rightarrow> world \<Rightarrow> exn option \<times> world" where
  "place env g filename w =
     (if is_archive filename then extract_file env g filename w
      else (case makedirs (gamedir g) w of
              Inl e \<Rightarrow> (Some e, w)
            | Inr w1 \<Rightarrow>
                (case copy filename (gamedir g) w1 of
                   Inl e \<Rightarrow> (Some e, w1)
                 | Inr w2 \<Rightarrow> (None, w2))))"

definition fetch_one :: "env \<Rightarrow> game \<Rightarrow> string \<Rightarrow> world \<Rightarrow> exn option \<times> world" where
  "fetch_one env g u w =
     (let filename = unquote env (last (split_sep CHR ''/'' u)) in
      case retrieve env u filename w of
        (Some e, w1) \<Rightarrow> (Some e, w1)
      | (None, w1) \<Rightarrow> place env g filename w1)"

fun fetch_all :: "env \<Rightarrow> game \<Rightarrow> string list \<Rightarrow> world \<Rightarrow> exn option \<times> world" where
  "fetch_all env g [] w = (None, w)"
| "fetch_all env g (u # us) w =
     (case fetch_one env g u w of
        (Some e, w1) \<Rightarrow> (Some e, w1)
      | (None, w1) \<Rightarrow> fetch_all env g us w1)"

definition download_files :: "env \<Rightarrow> game \<Rightarrow> world \<Rightarrow> exn option \<times> world" where
  "download_files env g w =
     (case chdir (path g) w of
        Inl e \<Rightarrow> (Some e, w)
      | Inr w1 \<Rightarrow>
          (case url g of
             UNone \<Rightarrow> (Some TypeError, w1)
           | UStr s \<Rightarrow> fetch_all env g (map (\<lambda>c. [c]) s) w1
           | UList us \<Rightarrow> fetch_all env g us w1))"

text \<open>
  \<^verbatim>\<open>Game.start(self, autorun)\<close>, lines 59-109, in the order of the source:
  \<open>ensure_payload\<close> is lines 59-60, \<open>write_conf\<close> lines 67-70 (it returns the
  arguments collected so far), \<open>start_prepare\<close> lines 59-70, \<open>prepare_script\<close> lines
  72-94 (it returns the final \<^verbatim>\<open>autorun\<close> and \<^verbatim>\<open>dosbox_run\<close>), \<open>start_launch\<close> lines
  59-101 (it returns the final \<^verbatim>\<open>autorun\<close> and the argument vector given to
  \<^verbatim>\<open>Popen\<close>), \<open>start_capture\<close> lines 104-109.
\<close>

definition text_of :: "string option \<Rightarrow> string" where
  "text_of v = (case v of None \<Rightarrow> [] | Some s \<Rightarrow> s)"

definition ensure_payload :: "env \<Rightarrow> game \<Rightarrow> world \<Rightarrow> exn option \<times> world" where
  "ensure_payload env g w =
     (if \<not> isdir w (gamedir g) then download_files env g w else (None, w))"

definition write_conf :: "string \<Rightarrow> game \<Rightarrow> world \<Rightarrow> exn + string list \<times> world" where
  "write_conf conffile g w =
     (if truthy (dosbox_conf g) then
        (case write_file conffile (text_of (dosbox_conf g)) w of
           Inl e \<Rightarrow> Inl e
         | Inr w1 \<Rightarrow> Inr ([''-fullscreen''] @ [''-userconf'', ''-conf'', ''dosbox.conf''], w1))
      else Inr ([''-fullscreen''], w))"

definition prepare_script ::
    "string \<Rightarrow> bool \<Rightarrow> game \<Rightarrow> world \<Rightarrow> exn + bool \<times> string \<times> world" where
  "prepare_script batfile autorun g w =
     (if truthy (emulator_start g) then
        (if autorun then
           (if isfile w (text_of (emulator_start g))
            then Inr (autorun, text_of (emulator_start g), w)
            else (case write_file batfile
                         (''@echo off'' @ [CHR 0x0A] @ ''cls'' @ [CHR 0x0A]
                            @ text_of (emulator_start g)) w of
                    Inl e \<Rightarrow> Inl e
                  | Inr w1 \<Rightarrow> Inr (autorun, ''dosbox.bat'', w1)))
         else (case write_file batfile (text_of (emulator_start g)) w of
                 Inl e \<Rightarrow> Inl e
               | Inr w1 \<Rightarrow> Inr (autorun, ''.'', w1)))
      else
        (if \<not> isfile w batfile then
           (case write_file batfile [CHR 0x0A] w of
              Inl e \<Rightarrow> Inl e
            | Inr w1 \<Rightarrow> Inr (False, ''.'', w1))
         else Inr (False, ''.'', w)))"

definition start_prepare ::
    "env \<Rightarrow> game \<Rightarrow> world \<Rightarrow> exn \<times> world + string list \<times> world" where
  "start_prepare env g w =
     (case ensure_payload env g w of
        (Some e, w1) \<Rightarrow> Inl (e, w1)
      | (None, w1) \<Rightarrow>
          (case chdir (gamedir g) w1 of
             Inl e \<Rightarrow> Inl (e, w1)
           | Inr w2 \<Rightarrow>
               (case write_conf (pjoin (gamedir g) ''dosbox.conf'') g w2 of
                  Inl e \<Rightarrow> Inl (e, w2)
                | Inr (args, w3) \<Rightarrow> Inr (args, w3))))"

definition start_launch ::
    "env \<Rightarrow> bool \<Rightarrow> game \<Rightarrow> world \<Rightarrow> exn \<times> world + bool \<times> string list \<times> world" where
  "start_launch env autorun g w =
     (case start_prepare env g w of
        Inl (e, w1) \<Rightarrow> Inl (e, w1)
      | Inr (args, w3) \<Rightarrow>
          (case prepare_script (pjoin (gamedir g) ''dosbox.bat'') autorun g w3 of
             Inl e \<Rightarrow> Inl (e, w3)
           | Inr (autorun', run, w4) \<Rightarrow>
               (let dosbox_args = (if autorun' then args @ [''-exit''] else args);
                    dosbox_run = (if autorun' then run else ''.'');
                    argv = [DOSBOX env, dosbox_run] @ dosbox_args
                in Inr (autorun', argv, popen argv w4))))"

definition start_capture :: "env \<Rightarrow> string list \<Rightarrow> game \<Rightarrow> world \<Rightarrow> outcome" where
  "start_capture env argv g w =
     (let w1 = wait env argv w; batfile = pjoin (gamedir g) ''dosbox.bat'' in
      if isfile w1 batfile then
        (case read_file batfile w1 of
           Inl e \<Rightarrow> \<lparr>raised = Some e, self = g, final = w1\<rparr>
         | Inr s \<Rightarrow>
             if s \<noteq> [] then write_metadata env (g\<lparr>emulator_start := Some s\<rparr>) w1
             else \<lparr>raised = None, self = g\<lparr>emulator_start := Some s\<rparr>, final = w1\<rparr>)
      else \<lparr>raised = None, self = g, final = w1\<rparr>)"

definition start :: "env \<Rightarrow> bool \<Rightarrow> game \<Rightarrow> world \<Rightarrow> outcome" where
  "start env autorun g w =
     (case start_launch env autorun g w of
        Inl (e, w1) \<Rightarrow> \<lparr>raised = Some e, self = g, final = w1\<rparr>
      | Inr (autorun', argv, w1) \<Rightarrow>
          if \<not> autorun' then start_capture env argv g w1
          else \<lparr>raised = None, self = g, final = w1\<rparr>)"

subsection \<open>Vocabulary of the proofs\<close>

text \<open>
  \<open>same_procs\<close>: nothing was spawned or requested and the working directory is the
  same; \<open>same_run\<close>: nothing was spawned and the working directory is the same.
\<close>

definition same_procs :: "world \<Rightarrow> world \<Rightarrow> bool" where
  "same_procs w w' = (launched w' = launched w \<and> fetched w' = fetched w \<and> cwd w' = cwd w)"

definition same_run :: "world \<Rightarrow> world \<Rightarrow> bool" where
  "same_run w w' = (launched w' = launched w \<and> cwd w' = cwd w)"

text \<open>
  \<open>owned_fields\<close> lists what lines 132-141 of \<open>write_metadata\<close> store, and
  \<open>apply_fields\<close> is the section those stores leave.
\<close>

fun apply_fields :: "(string \<times> string option) list \<Rightarrow> (string \<rightharpoonup> string) \<Rightarrow> (string \<rightharpoonup> string)" where
  "apply_fields [] m = m"
| "apply_fields ((k, None) # kvs) m = apply_fields kvs m"
| "apply_fields ((k, Some v) # kvs) m = apply_fields kvs (m(k \<mapsto> v))"

definition owned_fields :: "game \<Rightarrow> (string \<times> string option) list" where
  "owned_fields g =
     [(''title'', if_set (title g)),
      (''year'', if_set (year g)),
      (''url'', url_text (url g)),
      (''emulator_start'', if_set (emulator_start g)),
      (''dosbox_conf'', if_set (dosbox_conf g))]"


subsection \<open>A concrete title\<close>

text \<open>
  The title \<^verbatim>\<open>/games/foo\<close> with its payload directory in place, a metadata document
  that holds a title and a boot command, and an emulator session that changes nothing.
  The stand-in for the INI writer prints the boot command only, the one for the reader
  returns the document of the example.
\<close>

definition ex_config :: config where
  "ex_config =
     \<lparr>defaults = Map.empty,
      sections = [''metadata'' \<mapsto> [''title'' \<mapsto> ''Foo'', ''emulator_start'' \<mapsto> ''FOO.EXE'']]\<rparr>"

definition ex_game :: game where
  "ex_game =
     \<lparr>path = ''/games/foo'', gamedir = ''/games/foo/dosbox_drive_c'',
      game_identifier = ''foo'', config = ex_config,
      title = Some ''Foo'', year = None, emulator_start = Some ''FOO.EXE'',
      dosbox_conf = None, url = UNone\<rparr>"

definition ex_world :: world where
  "ex_world =
     \<lparr>files = [''/games/foo/metadata.ini'' \<mapsto> ''old''],
      dirs = {''/games/foo'', ''/games/foo/dosbox_drive_c''},
      cwd = ''/'', fetched = [], launched = []\<rparr>"

definition ex_env :: env where
  "ex_env =
     \<lparr>DOSBOX = ''dosbox'', unquote = (\<lambda>s. s), urlopen = Map.empty,
      zip_members = Map.empty,
      ini_dump = (\<lambda>c. text_of (cfg_get c ''metadata'' ''emulator_start'')),
      ini_parse = (\<lambda>s. Some ex_config),
      session = (\<lambda>argv fs. fs)\<rparr>"

text \<open>
  A richer document for the same title: a year, a URL and a key the class does not know.
\<close>

definition ex_config_url :: config where
  "ex_config_url =
     \<lparr>defaults = Map.empty,
      sections = [''metadata'' \<mapsto>
        [''title'' \<mapsto> ''Foo'', ''year'' \<mapsto> ''1990'', ''emulator_start'' \<mapsto> ''FOO.EXE'',
         ''url'' \<mapsto> ''http://x/a.zip'', ''collection'' \<mapsto> ''softwarelibrary'']]\<rparr>"

text \<open>
  The record of that document with its URL list emptied, and the same record with a new
  title and no year; a record with a URL that holds a blank; a record with every
  attribute set. In \<open>saved_env\<close> the stand-in for the INI reader returns the
  document that saving a given record writes.
\<close>

definition c2_game :: game where
  "c2_game = ex_game\<lparr>config := ex_config_url, year := Some ''1990'', url := UList []\<rparr>"

definition c8_game :: game where
  "c8_game = c2_game\<lparr>title := Some ''New'', year := None\<rparr>"




text \<open>
  A session in which the user rewrites the command script of the title to a given text,
  and the text of the spec's example.
\<close>

definition rewrite_env :: "string \<Rightarrow> env" where
  "rewrite_env s =
     ex_env\<lparr>session :=
       (\<lambda>argv fs. ((fst fs)(''/games/foo/dosbox_drive_c/dosbox.bat'' \<mapsto> s), snd fs))\<rparr>"

definition two_lines :: string where
  "two_lines = ''FOO.EXE'' @ [CHR 0x0A] @ ''BAR.EXE'' @ [CHR 0x0A]"

text \<open>
  A title whose boot command is the absolute path of a file outside its payload
  directory. \<open>inside_dir d p\<close> follows the spec's words ``a path inside the
  directory'': the path continues the directory's.
\<close>

definition c7_game :: game where
  "c7_game = ex_game\<lparr>emulator_start := Some ''/opt/GAME.EXE''\<rparr>"

definition c7_world :: world where
  "c7_world = ex_world\<lparr>files := (files ex_world)(''/opt/GAME.EXE'' \<mapsto> ''MZ'')\<rparr>"

definition inside_dir :: "string \<Rightarrow> string \<Rightarrow> bool" where
  "inside_dir d p = (take (length d + 1) p = d @ ''/'')"




section \<open>Lemmas\<close>

subsection \<open>What each operation leaves alone\<close>

lemma chdir_frame:
  "chdir p w = Inr w' \<Longrightarrow> w' = w\<lparr>cwd := abspath w p\<rparr> \<and> isdir w p"
  by (auto simp: chdir_def split: if_splits)

lemma write_file_frame:
  "write_file p s w = Inr w' \<Longrightarrow> w' = w\<lparr>files := (files w)(abspath w p \<mapsto> s)\<rparr>"
  by (auto simp: write_file_def Let_def split: if_splits)

lemma remove_file_frame:
  "remove_file p w = Inr w' \<Longrightarrow> w' = w\<lparr>files := (files w)(abspath w p := None)\<rparr>"
  by (auto simp: remove_file_def split: if_splits)

lemma makedirs_frame:
  "makedirs p w = Inr w' \<Longrightarrow> w' = w\<lparr>dirs := dirs w \<union> set (ancestors (abspath w p) @ [abspath w p])\<rparr>"
  by (auto simp: makedirs_def Let_def split: if_splits)

lemma copy_frame:
  "copy src dst w = Inr w' \<Longrightarrow> \<exists>a s. w' = w\<lparr>files := (files w)(a \<mapsto> s)\<rparr>"
  by (auto simp: copy_def Let_def split: if_splits sum.splits dest!: write_file_frame)

lemma same_procs_refl: "same_procs w w" by (simp add: same_procs_def)

lemma same_procs_trans: "same_procs w w1 \<Longrightarrow> same_procs w1 w2 \<Longrightarrow> same_procs w w2"
  by (simp add: same_procs_def)

lemma write_file_procs: "write_file p s w = Inr w' \<Longrightarrow> same_procs w w'"
  by (auto simp: same_procs_def dest!: write_file_frame)

lemma write_conf_procs: "write_conf c g w = Inr (args, w') \<Longrightarrow> same_procs w w'"
  by (auto simp: write_conf_def same_procs_refl split: if_splits sum.splits dest: write_file_procs)

lemma write_conf_args:
  "write_conf c g w = Inr (args, w') \<Longrightarrow>
     args = ''-fullscreen'' # (if truthy (dosbox_conf g) then [''-userconf'', ''-conf'', ''dosbox.conf''] else [])"
  by (auto simp: write_conf_def split: if_splits sum.splits)

lemma prepare_script_procs: "prepare_script b a g w = Inr (a', run, w') \<Longrightarrow> same_procs w w'"
  by (auto simp: prepare_script_def same_procs_refl split: if_splits sum.splits dest: write_file_procs)

lemma prepare_script_autorun:
  "prepare_script b a g w = Inr (a', run, w') \<Longrightarrow> a' = (a \<and> truthy (emulator_start g))"
  by (auto simp: prepare_script_def split: if_splits sum.splits)

lemma prepare_script_unset:
  "\<not> truthy (emulator_start g) \<Longrightarrow> prepare_script b True g w = prepare_script b False g w"
  by (simp add: prepare_script_def)

lemma same_run_refl: "same_run w w" by (simp add: same_run_def)

lemma same_run_trans: "same_run w w1 \<Longrightarrow> same_run w1 w2 \<Longrightarrow> same_run w w2"
  by (simp add: same_run_def)

lemma urlretrieve_run: "same_run w (snd (urlretrieve env u f w))"
  by (auto simp: urlretrieve_def same_run_def Let_def split: option.splits sum.splits dest!: write_file_frame)

lemma extract_member_run: "extract_member t m w = Inr w' \<Longrightarrow> same_run w w'"
  by (auto simp: extract_member_def same_run_def Let_def split: if_splits sum.splits
           dest!: write_file_frame makedirs_frame)

lemma extractall_run: "same_run w (snd (extractall t ms w))"
proof (induction ms arbitrary: w)
  case Nil
  show ?case by (simp add: same_run_refl)
next
  case (Cons m ms)
  show ?case
  proof (cases "extract_member t m w")
    case (Inl e)
    then show ?thesis by (simp add: same_run_refl)
  next
    case (Inr w1)
    then show ?thesis
      using same_run_trans [OF extract_member_run [OF Inr] Cons.IH [of w1]] by simp
  qed
qed

lemma extract_file_run: "same_run w (snd (extract_file env g z w))"
proof -
  have "same_run w (snd (extractall (gamedir g) ms w))" for ms
    by (rule extractall_run)
  then have "extractall (gamedir g) ms w = (e, w1) \<Longrightarrow> same_run w w1" for ms e w1
    by (metis snd_conv)
  then show ?thesis
    by (auto simp: extract_file_def same_run_refl
             split: sum.splits option.splits prod.splits if_splits
             dest!: remove_file_frame)
       (auto simp: same_run_def)
qed

lemma retrieve_run: "same_run w (snd (retrieve env u f w))"
  by (simp add: retrieve_def urlretrieve_run same_run_refl)

lemma place_run: "same_run w (snd (place env g f w))"
  using extract_file_run [of w env g f]
  by (auto simp: place_def same_run_def split: sum.splits dest!: makedirs_frame copy_frame)

lemma fetch_one_run: "same_run w (snd (fetch_one env g u w))"
proof -
  define f where "f = unquote env (last (split_sep CHR ''/'' u))"
  have a: "same_run w (snd (retrieve env u f w))"
    by (rule retrieve_run)
  have b: "same_run w1 (snd (place env g f w1))" for w1
    by (rule place_run)
  show ?thesis
    using a b [of "snd (retrieve env u f w)"]
    by (cases "retrieve env u f w")
       (auto simp: fetch_one_def Let_def f_def [symmetric] split: option.splits
             dest: same_run_trans)
qed

lemma fetch_all_run: "same_run w (snd (fetch_all env g us w))"
proof (induction us arbitrary: w)
  case Nil
  show ?case by (simp add: same_run_refl)
next
  case (Cons u us)
  have "same_run w (snd (fetch_one env g u w))"
    by (rule fetch_one_run)
  with Cons [of "snd (fetch_one env g u w)"] show ?case
    by (cases "fetch_one env g u w") (auto split: option.splits dest: same_run_trans)
qed

lemma download_files_run:
  "launched (snd (download_files env g w)) = launched w \<and>
   cwd (snd (download_files env g w)) \<in> {cwd w, pjoin (cwd w) (path g)}"
proof (cases "chdir (path g) w")
  case (Inl e)
  then show ?thesis by (simp add: download_files_def)
next
  case (Inr w1)
  have w1: "w1 = w\<lparr>cwd := abspath w (path g)\<rparr>"
    using Inr by (auto dest: chdir_frame)
  have "same_run w1 (snd (fetch_all env g us w1))" for us
    by (rule fetch_all_run)
  then show ?thesis
    using Inr w1 by (auto simp: download_files_def same_run_def abspath_def split: urls.splits)
qed

lemma ensure_payload_run:
  "launched (snd (ensure_payload env g w)) = launched w \<and>
   cwd (snd (ensure_payload env g w)) \<in> {cwd w, pjoin (cwd w) (path g)}"
  using download_files_run [of env g w] by (simp add: ensure_payload_def)

subsection \<open>The launch\<close>

lemma start_prepare_Inr:
  assumes "start_prepare env g w = Inr (args, w3)"
  shows "\<exists>w1 w2.
           ensure_payload env g w = (None, w1) \<and>
           chdir (gamedir g) w1 = Inr w2 \<and>
           write_conf (pjoin (gamedir g) ''dosbox.conf'') g w2 = Inr (args, w3)"
  using assms unfolding start_prepare_def
  by (auto split: prod.splits option.splits sum.splits)

lemma start_prepare_Inl:
  assumes "start_prepare env g w = Inl (e, w')"
  shows "launched w' = launched w"
proof -
  have ep: "launched (snd (ensure_payload env g w)) = launched w"
    using ensure_payload_run by blast
  show ?thesis
    using assms ep unfolding start_prepare_def
    by (auto split: prod.splits option.splits sum.splits
             dest!: chdir_frame write_conf_procs simp: same_procs_def)
qed

lemma start_prepare_run:
  assumes "start_prepare env g w = Inr (args, w3)"
  shows "launched w3 = launched w \<and>
         (\<exists>c. cwd w3 = pjoin c (gamedir g) \<and> c \<in> {cwd w, pjoin (cwd w) (path g)}) \<and>
         args = ''-fullscreen'' # (if truthy (dosbox_conf g) then [''-userconf'', ''-conf'', ''dosbox.conf''] else [])"
proof -
  from assms obtain w1 w2 where
    ep: "ensure_payload env g w = (None, w1)" and
    cd: "chdir (gamedir g) w1 = Inr w2" and
    wc: "write_conf (pjoin (gamedir g) ''dosbox.conf'') g w2 = Inr (args, w3)"
    using start_prepare_Inr by blast
  have l1: "launched w1 = launched w" and c1: "cwd w1 \<in> {cwd w, pjoin (cwd w) (path g)}"
    using ensure_payload_run [of env g w] ep by simp_all
  have w2: "w2 = w1\<lparr>cwd := abspath w1 (gamedir g)\<rparr>"
    using cd by (auto dest: chdir_frame)
  have p3: "same_procs w2 w3" using wc by (rule write_conf_procs)
  have "cwd w3 = pjoin (cwd w1) (gamedir g)"
    using p3 w2 by (simp add: same_procs_def abspath_def)
  with c1 have "\<exists>c. cwd w3 = pjoin c (gamedir g) \<and> c \<in> {cwd w, pjoin (cwd w) (path g)}"
    by blast
  moreover have "launched w3 = launched w"
    using p3 w2 l1 by (simp add: same_procs_def)
  ultimately show ?thesis
    using write_conf_args [OF wc] by simp
qed

lemma start_launch_Inr:
  assumes "start_launch env a g w = Inr (a', argv, w')"
  shows "\<exists>args w3 run w4.
           start_prepare env g w = Inr (args, w3) \<and>
           prepare_script (pjoin (gamedir g) ''dosbox.bat'') a g w3 = Inr (a', run, w4) \<and>
           argv = [DOSBOX env, if a' then run else ''.''] @ (if a' then args @ [''-exit''] else args) \<and>
           w' = popen argv w4"
  using assms unfolding start_launch_def Let_def
  by (fastforce split: prod.splits option.splits sum.splits)

lemma start_launch_Inl:
  assumes "start_launch env a g w = Inl (e, w')"
  shows "launched w' = launched w"
  using assms unfolding start_launch_def Let_def
  by (auto split: prod.splits option.splits sum.splits
           dest: start_prepare_Inl start_prepare_run)

lemma wait_procs: "same_procs w (wait env argv w)"
  by (simp add: wait_def same_procs_def split: prod.splits)

lemma write_metadata_procs: "same_procs w (final (write_metadata env g w))"
  by (auto simp: write_metadata_def same_procs_refl split: prod.splits option.splits sum.splits
           dest: write_file_procs)

lemma start_capture_procs: "same_procs w (final (start_capture env argv g w))"
proof -
  have a: "same_procs w (wait env argv w)" by (rule wait_procs)
  have b: "same_procs (wait env argv w) (final (write_metadata env g' (wait env argv w)))" for g'
    by (rule write_metadata_procs)
  show ?thesis
    using a b same_procs_trans [OF a b]
    by (auto simp: start_capture_def Let_def split: sum.splits)
qed

lemma start_launched_shape:
  "launched (final (start env autorun g w)) = launched w \<and> raised (start env autorun g w) \<noteq> None
   \<or> (\<exists>run c. launched (final (start env autorun g w)) =
        launched w @
          [([DOSBOX env, run, ''-fullscreen'']
              @ (if truthy (dosbox_conf g) then [''-userconf'', ''-conf'', ''dosbox.conf''] else [])
              @ (if autorun \<and> truthy (emulator_start g) then [''-exit''] else []),
            pjoin c (gamedir g))]
       \<and> c \<in> {cwd w, pjoin (cwd w) (path g)}
       \<and> (if autorun \<and> truthy (emulator_start g)
           then run \<in> {text_of (emulator_start g), ''dosbox.bat''} else run = ''.''))"
proof (cases "start_launch env autorun g w")
  case (Inl ew)
  then show ?thesis
    by (cases ew) (auto simp: start_def dest: start_launch_Inl)
next
  case (Inr r)
  obtain a' argv w' where r: "r = (a', argv, w')" by (cases r) auto
  from Inr r obtain args w3 run w4 where
    sp: "start_prepare env g w = Inr (args, w3)" and
    ps: "prepare_script (pjoin (gamedir g) ''dosbox.bat'') autorun g w3 = Inr (a', run, w4)" and
    argv: "argv = [DOSBOX env, if a' then run else ''.''] @ (if a' then args @ [''-exit''] else args)" and
    w': "w' = popen argv w4"
    using start_launch_Inr by blast
  from start_prepare_run [OF sp] obtain c where
    l3: "launched w3 = launched w" and
    c3: "cwd w3 = pjoin c (gamedir g)" and c: "c \<in> {cwd w, pjoin (cwd w) (path g)}" and
    args: "args = ''-fullscreen'' # (if truthy (dosbox_conf g) then [''-userconf'', ''-conf'', ''dosbox.conf''] else [])"
    by blast
  have p4: "same_procs w3 w4" using ps by (rule prepare_script_procs)
  have a': "a' = (autorun \<and> truthy (emulator_start g))"
    using ps by (rule prepare_script_autorun)
  have run: "a' \<Longrightarrow> run \<in> {text_of (emulator_start g), ''dosbox.bat''}"
    using ps by (auto simp: prepare_script_def split: if_splits sum.splits)
  have lw': "launched w' = launched w @ [(argv, pjoin c (gamedir g))]"
    using w' p4 l3 c3 by (simp add: popen_def same_procs_def)
  have fin: "launched (final (start env autorun g w)) = launched w'"
    using Inr r start_capture_procs [of w' env argv g]
    by (simp add: start_def same_procs_def)
  have "launched (final (start env autorun g w)) =
        launched w @
          [([DOSBOX env, if a' then run else ''.'', ''-fullscreen'']
              @ (if truthy (dosbox_conf g) then [''-userconf'', ''-conf'', ''dosbox.conf''] else [])
              @ (if autorun \<and> truthy (emulator_start g) then [''-exit''] else []),
            pjoin c (gamedir g))]"
    using fin lw' argv args a' by simp
  moreover have "if autorun \<and> truthy (emulator_start g)
           then (if a' then run else ''.'') \<in> {text_of (emulator_start g), ''dosbox.bat''}
           else (if a' then run else ''.'') = ''.''"
    using a' run by auto
  ultimately show ?thesis using c by blast
qed

subsection \<open>Saving and loading the metadata\<close>

lemma store_fields_section:
  "sections c ''metadata'' = Some m \<Longrightarrow>
   store_fields kvs c = (None, c\<lparr>sections := (sections c)(''metadata'' \<mapsto> apply_fields kvs m)\<rparr>)"
proof (induction kvs m arbitrary: c rule: apply_fields.induct)
  case (1 m)
  then show ?case by (simp add: map_upd_triv)
next
  case (2 k kvs m)
  then show ?case by simp
next
  case (3 k v kvs m)
  define c' where "c' = c\<lparr>sections := (sections c)(''metadata'' \<mapsto> m(k \<mapsto> v))\<rparr>"
  have s': "sections c' ''metadata'' = Some (m(k \<mapsto> v))"
    by (simp add: c'_def)
  have step: "cfg_set ''metadata'' k v c = Inr c'"
    using "3.prems" by (simp add: cfg_set_def c'_def)
  have same: "c'\<lparr>sections := (sections c')(''metadata'' \<mapsto> x)\<rparr> =
              c\<lparr>sections := (sections c)(''metadata'' \<mapsto> x)\<rparr>" for x
    by (simp add: c'_def)
  have "store_fields ((k, Some v) # kvs) c = store_fields kvs c'"
    using step by simp
  also have "\<dots> = (None, c'\<lparr>sections := (sections c')(''metadata'' \<mapsto> apply_fields kvs (m(k \<mapsto> v)))\<rparr>)"
    by (rule "3.IH" [OF s'])
  also have "\<dots> = (None, c\<lparr>sections := (sections c)(''metadata'' \<mapsto> apply_fields kvs (m(k \<mapsto> v)))\<rparr>)"
    by (simp only: same)
  finally show ?case by (simp only: apply_fields.simps)
qed

lemma store_fields_no_section:
  "sections c ''metadata'' = None \<Longrightarrow> snd (store_fields kvs c) = c"
  by (induction kvs c rule: store_fields.induct) (simp_all add: cfg_set_def)

lemma write_metadata_config:
  "config (self (write_metadata env g w)) =
     (case sections (config g) ''metadata'' of
        None \<Rightarrow> config g
      | Some m \<Rightarrow> (config g)\<lparr>sections := (sections (config g))(''metadata'' \<mapsto> apply_fields (owned_fields g) m)\<rparr>)"
proof (cases "sections (config g) ''metadata''")
  case None
  from store_fields_no_section [OF None, of "owned_fields g"] show ?thesis
    using None
    by (auto simp: write_metadata_def owned_fields_def split: prod.splits option.splits sum.splits)
next
  case (Some m)
  from store_fields_section [OF Some, of "owned_fields g"] show ?thesis
    using Some
    by (auto simp: write_metadata_def owned_fields_def split: prod.splits option.splits sum.splits)
qed

lemma write_metadata_rest:
  "path (self (write_metadata env g w)) = path g \<and>
   gamedir (self (write_metadata env g w)) = gamedir g \<and>
   title (self (write_metadata env g w)) = title g \<and>
   year (self (write_metadata env g w)) = year g \<and>
   emulator_start (self (write_metadata env g w)) = emulator_start g \<and>
   dosbox_conf (self (write_metadata env g w)) = dosbox_conf g \<and>
   url (self (write_metadata env g w)) = url g"
  by (auto simp: write_metadata_def split: prod.splits option.splits sum.splits)

lemma write_metadata_world:
  "(raised (write_metadata env g w) \<noteq> None \<and> final (write_metadata env g w) = w) \<or>
   (raised (write_metadata env g w) = None \<and>
    write_file (pjoin (path g) ''metadata.ini'')
      (ini_dump env (config (self (write_metadata env g w)))) w = Inr (final (write_metadata env g w)))"
  by (auto simp: write_metadata_def split: prod.splits option.splits sum.splits)

lemma apply_fields_get:
  "distinct (map fst kvs) \<Longrightarrow>
   apply_fields kvs m k =
     (case map_of kvs k of None \<Rightarrow> m k | Some None \<Rightarrow> m k | Some (Some v) \<Rightarrow> Some v)"
proof (induction kvs m rule: apply_fields.induct)
  case (1 m)
  show ?case by simp
next
  case (2 k' kvs m)
  then show ?case
    by (auto split: option.splits simp: map_of_eq_None_iff [symmetric])
next
  case (3 k' v kvs m)
  define m' where "m' = m(k' \<mapsto> v)"
  have d: "distinct (map fst kvs)" and n: "map_of kvs k' = None"
    using "3.prems" by (simp_all add: map_of_eq_None_iff)
  have ih: "apply_fields kvs m' k =
     (case map_of kvs k of None \<Rightarrow> m' k | Some None \<Rightarrow> m' k | Some (Some v) \<Rightarrow> Some v)"
    unfolding m'_def by (rule "3.IH" [OF d])
  have "apply_fields ((k', Some v) # kvs) m k = apply_fields kvs m' k"
    by (simp only: apply_fields.simps m'_def)
  also note ih
  finally show ?case
    using n by (cases "k = k'") (simp_all add: m'_def split: option.splits)
qed

lemma owned_fields_distinct: "distinct (map fst (owned_fields g))"
  by (simp add: owned_fields_def)

lemma owned_fields_get:
  "apply_fields (owned_fields g) m k =
     (case map_of (owned_fields g) k of None \<Rightarrow> m k | Some None \<Rightarrow> m k | Some (Some v) \<Rightarrow> Some v)"
  by (rule apply_fields_get [OF owned_fields_distinct])

lemma if_set_cases:
  "(case if_set v of None \<Rightarrow> x | Some t \<Rightarrow> Some t) = (if truthy v then v else x)"
  by (cases v) (auto simp: if_set_def truthy_def)

lemma owned_title: "apply_fields (owned_fields g) m ''title'' = (if truthy (title g) then title g else m ''title'')"
  by (subst owned_fields_get) (simp add: owned_fields_def if_set_cases)

lemma owned_year: "apply_fields (owned_fields g) m ''year'' = (if truthy (year g) then year g else m ''year'')"
  by (subst owned_fields_get) (simp add: owned_fields_def if_set_cases)

lemma owned_url: "apply_fields (owned_fields g) m ''url'' = (case url_text (url g) of None \<Rightarrow> m ''url'' | Some t \<Rightarrow> Some t)"
  by (subst owned_fields_get) (simp add: owned_fields_def)

lemma owned_emulator_start:
  "apply_fields (owned_fields g) m ''emulator_start'' =
     (if truthy (emulator_start g) then emulator_start g else m ''emulator_start'')"
  by (subst owned_fields_get) (simp add: owned_fields_def if_set_cases)

lemma owned_dosbox_conf:
  "apply_fields (owned_fields g) m ''dosbox_conf'' =
     (if truthy (dosbox_conf g) then dosbox_conf g else m ''dosbox_conf'')"
  by (subst owned_fields_get) (simp add: owned_fields_def if_set_cases)

lemma owned_other:
  "k \<notin> {''title'', ''year'', ''url'', ''emulator_start'', ''dosbox_conf''} \<Longrightarrow>
   apply_fields (owned_fields g) m k = m k"
  by (subst owned_fields_get) (simp add: owned_fields_def)






lemma url_text_cases:
  "(case url_text (url g) of None \<Rightarrow> x | Some t \<Rightarrow> Some t) =
     (case url g of
        UNone \<Rightarrow> x
      | UStr s \<Rightarrow> if s \<noteq> [] then Some (str_join [CHR 0x0A] (map (\<lambda>c. [c]) s)) else x
      | UList xs \<Rightarrow> if xs \<noteq> [] then Some (str_join [CHR 0x0A] xs) else x)"
  by (simp add: url_text_def split: urls.splits)

lemma write_metadata_final:
  "final (write_metadata env g w) =
     (if raised (write_metadata env g w) = None
      then w\<lparr>files := (files w)(abspath w (pjoin (path g) ''metadata.ini'') \<mapsto>
                 ini_dump env (config (self (write_metadata env g w))))\<rparr>
      else w)"
proof -
  from write_metadata_world [of env g w] show ?thesis
  proof
    assume "raised (write_metadata env g w) \<noteq> None \<and> final (write_metadata env g w) = w"
    then show ?thesis by auto
  next
    assume a: "raised (write_metadata env g w) = None \<and>
      write_file (pjoin (path g) ''metadata.ini'')
        (ini_dump env (config (self (write_metadata env g w)))) w = Inr (final (write_metadata env g w))"
    then have "final (write_metadata env g w) =
        w\<lparr>files := (files w)(abspath w (pjoin (path g) ''metadata.ini'') \<mapsto>
                 ini_dump env (config (self (write_metadata env g w))))\<rparr>"
      by (intro write_file_frame) simp
    with a show ?thesis by simp
  qed
qed


subsection \<open>The script and its capture\<close>

lemma start_launch_autorun:
  "start_launch env a g w = Inr (a', argv, wl) \<Longrightarrow> a' = (a \<and> truthy (emulator_start g))"
  by (auto dest!: start_launch_Inr dest: prepare_script_autorun)

lemma start_interactive:
  "start_launch env a g w = Inr (a', argv, wl) \<Longrightarrow> \<not> a' \<Longrightarrow>
   start env a g w = start_capture env argv g wl"
  by (simp add: start_def)

lemma read_file_isfile: "read_file p w = Inr s \<Longrightarrow> isfile w p"
  by (auto simp: read_file_def isfile_def split: if_splits option.splits)

lemma start_capture_read:
  assumes "read_file (pjoin (gamedir g) ''dosbox.bat'') (wait env argv wl) = Inr s"
  shows "start_capture env argv g wl =
           (if s \<noteq> [] then write_metadata env (g\<lparr>emulator_start := Some s\<rparr>) (wait env argv wl)
            else \<lparr>raised = None, self = g\<lparr>emulator_start := Some s\<rparr>, final = wait env argv wl\<rparr>)"
  using assms read_file_isfile [OF assms] by (simp add: start_capture_def Let_def)

lemma store_fields_raises:
  "sections c ''metadata'' = None \<Longrightarrow> list_ex (\<lambda>kv. snd kv \<noteq> None) kvs \<Longrightarrow>
   fst (store_fields kvs c) = Some KeyError"
  by (induction kvs c rule: store_fields.induct) (simp_all add: cfg_set_def)

lemma write_metadata_needs_section:
  assumes "raised (write_metadata env g w) = None" and "truthy (emulator_start g)"
  shows "sections (config g) ''metadata'' \<noteq> None"
proof
  assume n: "sections (config g) ''metadata'' = None"
  have "if_set (emulator_start g) \<noteq> None"
    using assms(2) by (cases "emulator_start g") (simp_all add: if_set_def truthy_def)
  then have "list_ex (\<lambda>kv. snd kv \<noteq> None) (owned_fields g)"
    unfolding owned_fields_def by simp
  from store_fields_raises [OF n this] assms(1) show False
    by (auto simp: write_metadata_def owned_fields_def split: prod.splits option.splits sum.splits)
qed

lemma write_metadata_saves_boot_command:
  assumes "raised (write_metadata env g w) = None" and "emulator_start g = Some s" and "s \<noteq> []"
  shows "cfg_get (config (self (write_metadata env g w))) ''metadata'' ''emulator_start'' = Some s \<and>
         files (final (write_metadata env g w)) (abspath w (pjoin (path g) ''metadata.ini'')) =
           Some (ini_dump env (config (self (write_metadata env g w))))"
proof -
  have t: "truthy (emulator_start g)" using assms(2,3) by (simp add: truthy_def)
  from write_metadata_needs_section [OF assms(1) t] obtain m where
    m: "sections (config g) ''metadata'' = Some m" by blast
  have "cfg_get (config (self (write_metadata env g w))) ''metadata'' ''emulator_start'' = Some s"
    using m t assms(2) by (simp add: write_metadata_config cfg_get_def owned_emulator_start)
  moreover have "files (final (write_metadata env g w)) (abspath w (pjoin (path g) ''metadata.ini'')) =
           Some (ini_dump env (config (self (write_metadata env g w))))"
    using assms(1) by (subst write_metadata_final) simp
  ultimately show ?thesis by simp
qed

lemma capture_effect:
  assumes "start_launch env a g w = Inr (False, argv, wl)"
      and "read_file (pjoin (gamedir g) ''dosbox.bat'') (wait env argv wl) = Inr s"
  shows "if s \<noteq> [] then
           start env a g w = write_metadata env (g\<lparr>emulator_start := Some s\<rparr>) (wait env argv wl) \<and>
           emulator_start (self (start env a g w)) = Some s \<and>
           (if raised (start env a g w) = None then
              cfg_get (config (self (start env a g w))) ''metadata'' ''emulator_start'' = Some s \<and>
              files (final (start env a g w))
                  (abspath (wait env argv wl) (pjoin (path g) ''metadata.ini'')) =
                Some (ini_dump env (config (self (start env a g w))))
            else final (start env a g w) = wait env argv wl)
         else
           raised (start env a g w) = None \<and>
           config (self (start env a g w)) = config g \<and>
           final (start env a g w) = wait env argv wl"
proof -
  have st: "start env a g w =
           (if s \<noteq> [] then write_metadata env (g\<lparr>emulator_start := Some s\<rparr>) (wait env argv wl)
            else \<lparr>raised = None, self = g\<lparr>emulator_start := Some s\<rparr>, final = wait env argv wl\<rparr>)"
    using start_interactive [OF assms(1)] start_capture_read [OF assms(2)] by simp
  show ?thesis
  proof (cases "s = []")
    case True
    then show ?thesis using st by simp
  next
    case False
    define g1 where "g1 = g\<lparr>emulator_start := Some s\<rparr>"
    define wx where "wx = wait env argv wl"
    have st': "start env a g w = write_metadata env g1 wx"
      using st False by (simp add: g1_def wx_def)
    have e: "emulator_start g1 = Some s" and p: "path g1 = path g" by (simp_all add: g1_def)
    have 1: "emulator_start (self (write_metadata env g1 wx)) = Some s"
      using write_metadata_rest [of env g1 wx] e by simp
    have 2: "raised (write_metadata env g1 wx) = None \<Longrightarrow>
             cfg_get (config (self (write_metadata env g1 wx))) ''metadata'' ''emulator_start'' = Some s \<and>
             files (final (write_metadata env g1 wx)) (abspath wx (pjoin (path g) ''metadata.ini'')) =
               Some (ini_dump env (config (self (write_metadata env g1 wx))))"
      using write_metadata_saves_boot_command [of env g1 wx s] e p False by simp
    have 3: "raised (write_metadata env g1 wx) \<noteq> None \<Longrightarrow> final (write_metadata env g1 wx) = wx"
      by (subst write_metadata_final) auto
    show ?thesis
      using False st' 1 2 3 unfolding g1_def [symmetric] wx_def [symmetric] by auto
  qed
qed

lemma prepare_script_placeholder:
  assumes "\<not> truthy (emulator_start g)" and "\<not> isfile w3 b"
      and "prepare_script b a g w3 = Inr (a', run, w4)"
  shows "w4 = w3\<lparr>files := (files w3)(abspath w3 b \<mapsto> [CHR 0x0A])\<rparr> \<and> b \<noteq> [] \<and>
         abspath w3 b \<notin> dirs w3"
  using assms
  by (auto simp: prepare_script_def write_file_def Let_def split: if_splits sum.splits)

lemma prepare_script_autorun_target:
  assumes "truthy (emulator_start g)"
      and "prepare_script b True g w3 = Inr (a', run, w4)"
  shows "a' \<and>
         (if isfile w3 (text_of (emulator_start g))
          then run = text_of (emulator_start g) \<and> w4 = w3
          else run = ''dosbox.bat'' \<and>
               w4 = w3\<lparr>files := (files w3)(abspath w3 b \<mapsto>
                      ''@echo off'' @ [CHR 0x0A] @ ''cls'' @ [CHR 0x0A] @ text_of (emulator_start g))\<rparr>)"
  using assms
  by (auto simp: prepare_script_def split: if_splits sum.splits dest!: write_file_frame)

subsection \<open>Fetched files\<close>















subsection \<open>A whole call\<close>

lemma start_unset_autorun:
  "\<not> truthy (emulator_start g) \<Longrightarrow> start env True g w = start env False g w"
proof -
  assume "\<not> truthy (emulator_start g)"
  then have "start_launch env True g w = start_launch env False g w"
    by (simp add: start_launch_def prepare_script_unset split: sum.splits prod.splits)
  then show ?thesis by (simp add: start_def)
qed

lemma Game_init_fields:
  assumes "Game_init env p w = Inr g"
  shows "path g = p \<and> gamedir g = pjoin p ''dosbox_drive_c'' \<and>
         sections (config g) ''metadata'' \<noteq> None \<and>
         title g = cfg_get (config g) ''metadata'' ''title'' \<and>
         year g = cfg_get (config g) ''metadata'' ''year'' \<and>
         emulator_start g = cfg_get (config g) ''metadata'' ''emulator_start'' \<and>
         dosbox_conf g = cfg_get (config g) ''metadata'' ''dosbox_conf'' \<and>
         url g = (case cfg_get (config g) ''metadata'' ''url'' of
                    None \<Rightarrow> UNone
                  | Some s \<Rightarrow> if s \<noteq> [] then UList (py_split s) else UStr s)"
  using assms by (auto simp: Game_init_def split: sum.splits option.splits)

lemma start_fetched:
  "fetched (final (start env autorun g w)) = fetched (snd (ensure_payload env g w))"
proof (cases "ensure_payload env g w")
  case (Pair r w1)
  show ?thesis
  proof (cases "start_launch env autorun g w")
    case (Inl ew)
    then show ?thesis
      using Pair unfolding start_def start_launch_def start_prepare_def Let_def
      by (auto split: prod.splits option.splits sum.splits
               dest!: chdir_frame write_conf_procs prepare_script_procs simp: same_procs_def)
  next
    case (Inr r')
    obtain a' argv w' where r: "r' = (a', argv, w')" by (cases r') auto
    from Inr r obtain args w3 run w4 where
      sp: "start_prepare env g w = Inr (args, w3)" and
      ps: "prepare_script (pjoin (gamedir g) ''dosbox.bat'') autorun g w3 = Inr (a', run, w4)" and
      w': "w' = popen argv w4"
      using start_launch_Inr by blast
    from start_prepare_Inr [OF sp] obtain w1' w2 where
      ep: "ensure_payload env g w = (None, w1')" and
      cd: "chdir (gamedir g) w1' = Inr w2" and
      wc: "write_conf (pjoin (gamedir g) ''dosbox.conf'') g w2 = Inr (args, w3)"
      by blast
    have "fetched w' = fetched w1'"
      using w' prepare_script_procs [OF ps] write_conf_procs [OF wc] chdir_frame [OF cd]
      by (simp add: same_procs_def popen_def)
    moreover have "fetched (final (start env autorun g w)) = fetched w'"
      using Inr r start_capture_procs [of w' env argv g]
      by (simp add: start_def same_procs_def)
    ultimately show ?thesis using ep by simp
  qed
qed

subsection \<open>Unfolding on concrete inputs\<close>

lemmas model_defs = start_def start_launch_def start_prepare_def start_capture_def
  ensure_payload_def write_conf_def prepare_script_def write_metadata_def chdir_def
  write_file_def read_file_def isdir_def isfile_def abspath_def pjoin_def is_abs_def
  dirname_def basename_def popen_def wait_def truthy_def text_of_def if_set_def
  url_text_def cfg_set_def cfg_get_def

lemmas ex_defs = ex_env_def ex_game_def ex_world_def ex_config_def


section \<open>The claims\<close>

subsection \<open>C1: what an interactive session leaves behind\<close>

text \<open>
  C1, as stated, fails in its last part: when the script is empty after the session,
  line 107 has already assigned the empty text to \<^verbatim>\<open>self.emulator_start\<close>, so the
  record's boot command does not remain what it was. Here the boot command is
  \<^verbatim>\<open>FOO.EXE\<close>, the user empties the script, and the record ends with the empty text.
\<close>

theorem C1_empty_script_counterexample:
  "emulator_start ex_game = Some ''FOO.EXE'' \<and>
   raised (start (rewrite_env []) False ex_game ex_world) = None \<and>
   files (final (start (rewrite_env []) False ex_game ex_world))
       ''/games/foo/dosbox_drive_c/dosbox.bat'' = Some [] \<and>
   emulator_start (self (start (rewrite_env []) False ex_game ex_world)) = Some []"
  by (simp add: model_defs ex_defs rewrite_env_def Let_def)

text \<open>
  C1, amended. When \<open>start\<close> is called with \<^verbatim>\<open>autorun=False\<close>, the emulator has been
  spawned and the script reads \<open>s\<close> once the process has exited: if \<open>s\<close> is not empty,
  the call ends as \<open>write_metadata\<close> does on the record whose boot command is \<open>s\<close>, so
  the record's boot command is \<open>s\<close> and, unless the save raises, the document holds
  \<open>s\<close> under \<^verbatim>\<open>emulator_start\<close> and \<^verbatim>\<open>metadata.ini\<close> holds the document; if \<open>s\<close> is
  empty, nothing is raised, the save is not run, the document is unchanged and the world
  is as the session left it. (What the record's boot command is in that case is left
  open.) Nothing here needs the boot command to have been set before the call.
\<close>

theorem C1_interactive_capture:
  assumes "start_launch env False g w = Inr (a', argv, wl)"
      and "read_file (pjoin (gamedir g) ''dosbox.bat'') (wait env argv wl) = Inr s"
  shows "if s \<noteq> [] then
           start env False g w = write_metadata env (g\<lparr>emulator_start := Some s\<rparr>) (wait env argv wl) \<and>
           emulator_start (self (start env False g w)) = Some s \<and>
           (if raised (start env False g w) = None then
              cfg_get (config (self (start env False g w))) ''metadata'' ''emulator_start'' = Some s \<and>
              files (final (start env False g w))
                  (abspath (wait env argv wl) (pjoin (path g) ''metadata.ini'')) =
                Some (ini_dump env (config (self (start env False g w))))
            else final (start env False g w) = wait env argv wl)
         else
           raised (start env False g w) = None \<and>
           config (self (start env False g w)) = config g \<and>
           final (start env False g w) = wait env argv wl"
proof -
  have "\<not> a'" using start_launch_autorun [OF assms(1)] by simp
  with assms(1) have "start_launch env False g w = Inr (False, argv, wl)" by simp
  from capture_effect [OF this assms(2)] show ?thesis .
qed

theorem C1_interactive_capture_witness:
  "(\<exists>a' argv wl.
      start_launch (rewrite_env two_lines) False ex_game ex_world = Inr (a', argv, wl) \<and>
      read_file (pjoin (gamedir ex_game) ''dosbox.bat'') (wait (rewrite_env two_lines) argv wl) =
        Inr two_lines) \<and>
   two_lines \<noteq> [] \<and>
   raised (start (rewrite_env two_lines) False ex_game ex_world) = None \<and>
   emulator_start (self (start (rewrite_env two_lines) False ex_game ex_world)) = Some two_lines \<and>
   cfg_get (config (self (start (rewrite_env two_lines) False ex_game ex_world)))
       ''metadata'' ''emulator_start'' = Some two_lines \<and>
   files (final (start (rewrite_env two_lines) False ex_game ex_world))
       ''/games/foo/metadata.ini'' = Some two_lines"
proof -
  have ex: "\<exists>a' argv wl.
      start_launch (rewrite_env two_lines) False ex_game ex_world = Inr (a', argv, wl) \<and>
      read_file (pjoin (gamedir ex_game) ''dosbox.bat'') (wait (rewrite_env two_lines) argv wl) =
        Inr two_lines"
    by (simp add: model_defs ex_defs rewrite_env_def Let_def) auto
  then obtain a' argv wl where
    l: "start_launch (rewrite_env two_lines) False ex_game ex_world = Inr (a', argv, wl)" and
    r: "read_file (pjoin (gamedir ex_game) ''dosbox.bat'') (wait (rewrite_env two_lines) argv wl) =
        Inr two_lines"
    by blast
  have ne: "two_lines \<noteq> []" by (simp add: two_lines_def)
  have ok: "raised (start (rewrite_env two_lines) False ex_game ex_world) = None"
    by (simp add: model_defs ex_defs rewrite_env_def Let_def)
  have p: "abspath (wait (rewrite_env two_lines) argv wl) (pjoin (path ex_game) ''metadata.ini'') =
           ''/games/foo/metadata.ini''"
    by (simp add: abspath_def pjoin_def is_abs_def ex_game_def)
  have d: "ini_dump (rewrite_env two_lines) c = text_of (cfg_get c ''metadata'' ''emulator_start'')" for c
    by (simp add: rewrite_env_def ex_env_def)
  have e: "(if c then A else B) \<Longrightarrow> c \<Longrightarrow> A" for c A B by simp
  note c1 = e [OF C1_interactive_capture [OF l r] ne, THEN conjunct2]
  note c2 = e [OF c1 [THEN conjunct2] ok]
  from c1 [THEN conjunct1] c2 have
    "emulator_start (self (start (rewrite_env two_lines) False ex_game ex_world)) = Some two_lines \<and>
     cfg_get (config (self (start (rewrite_env two_lines) False ex_game ex_world)))
       ''metadata'' ''emulator_start'' = Some two_lines \<and>
     files (final (start (rewrite_env two_lines) False ex_game ex_world))
       ''/games/foo/metadata.ini'' = Some two_lines"
    by (simp add: p d text_of_def)
  with ex ne ok show ?thesis by simp
qed

subsection \<open>C2: saving and loading again\<close>




subsection \<open>C3: how a fetched file is classified\<close>




subsection \<open>C4: no boot command forces autorun off\<close>

text \<open>
  C4. For every title whose boot command is unset (\<^verbatim>\<open>None\<close> or empty), \<open>start\<close> with
  \<^verbatim>\<open>autorun=True\<close> ends exactly as \<open>start\<close> with \<^verbatim>\<open>autorun=False\<close> does (the same
  exception or none, the same object, the same world), and no process it spawns is given
  \<^verbatim>\<open>-exit\<close> among its arguments.
\<close>

theorem C4_autorun_forced_off:
  assumes "\<not> truthy (emulator_start g)"
  shows "start env True g w = start env False g w \<and>
         list_all (\<lambda>l. l \<in> set (launched w) \<or> ''-exit'' \<notin> set (tl (fst l)))
           (launched (final (start env True g w)))"
proof -
  have "list_all (\<lambda>l. l \<in> set (launched w) \<or> ''-exit'' \<notin> set (tl (fst l)))
           (launched (final (start env True g w)))"
    using start_launched_shape [of env True g w] assms
    by (auto simp: list_all_iff)
  with assms show ?thesis by (simp add: start_unset_autorun)
qed

theorem C4_autorun_forced_off_witness:
  "\<not> truthy (emulator_start (ex_game\<lparr>emulator_start := None\<rparr>)) \<and>
   start ex_env True (ex_game\<lparr>emulator_start := None\<rparr>) ex_world =
     start ex_env False (ex_game\<lparr>emulator_start := None\<rparr>) ex_world \<and>
   list_all (\<lambda>l. l \<in> set (launched ex_world) \<or> ''-exit'' \<notin> set (tl (fst l)))
     (launched (final (start ex_env True (ex_game\<lparr>emulator_start := None\<rparr>) ex_world))) \<and>
   launched (final (start ex_env True (ex_game\<lparr>emulator_start := None\<rparr>) ex_world)) =
     [([''dosbox'', ''.'', ''-fullscreen''], ''/games/foo/dosbox_drive_c'')]"
proof -
  have h: "\<not> truthy (emulator_start (ex_game\<lparr>emulator_start := None\<rparr>))"
    by (simp add: truthy_def)
  have l: "launched (final (start ex_env True (ex_game\<lparr>emulator_start := None\<rparr>) ex_world)) =
     [([''dosbox'', ''.'', ''-fullscreen''], ''/games/foo/dosbox_drive_c'')]"
    by (simp add: model_defs ex_defs Let_def)
  show ?thesis
    using h l C4_autorun_forced_off [OF h, of ex_env ex_world] by simp
qed

subsection \<open>C5: a payload that is present is not fetched again\<close>

text \<open>
  C5. For every title whose payload directory exists, ensuring the payload (lines 59-60)
  raises nothing and leaves the world as it is, and the whole of \<open>start\<close> requests
  nothing from the network.
\<close>

theorem C5_payload_present_noop:
  assumes "isdir w (gamedir g)"
  shows "ensure_payload env g w = (None, w) \<and>
         fetched (final (start env autorun g w)) = fetched w"
  using assms start_fetched [of env autorun g w] by (simp add: ensure_payload_def)

theorem C5_payload_present_noop_witness:
  "isdir ex_world (gamedir ex_game) \<and>
   ensure_payload ex_env ex_game ex_world = (None, ex_world) \<and>
   fetched (final (start ex_env True ex_game ex_world)) = fetched ex_world"
proof -
  have h: "isdir ex_world (gamedir ex_game)"
    by (simp add: isdir_def abspath_def pjoin_def is_abs_def ex_defs)
  show ?thesis
    using h C5_payload_present_noop [OF h, of ex_env True] by simp
qed

subsection \<open>C6: the shape of the emulator invocation\<close>

text \<open>
  C6. A call of \<open>start\<close> either raises before it spawns anything, or spawns exactly one
  process. Its argument vector is the emulator command, the run target,
  \<^verbatim>\<open>-fullscreen\<close>, then \<^verbatim>\<open>-userconf -conf dosbox.conf\<close> exactly when the emulator
  configuration is set, then \<^verbatim>\<open>-exit\<close> exactly when the final autorun is true (autorun
  was asked for and the boot command is set). Its working directory is the payload
  directory, resolved against the directory that was current when the call changed into
  it. The run target is \<^verbatim>\<open>.\<close> unless the final autorun is true.
\<close>

theorem C6_invocation_shape:
  "launched (final (start env autorun g w)) = launched w \<and> raised (start env autorun g w) \<noteq> None
   \<or> (\<exists>run c. launched (final (start env autorun g w)) =
        launched w @
          [([DOSBOX env, run, ''-fullscreen'']
              @ (if truthy (dosbox_conf g) then [''-userconf'', ''-conf'', ''dosbox.conf''] else [])
              @ (if autorun \<and> truthy (emulator_start g) then [''-exit''] else []),
            pjoin c (gamedir g))]
       \<and> c \<in> {cwd w, pjoin (cwd w) (path g)}
       \<and> (if autorun \<and> truthy (emulator_start g)
           then run \<in> {text_of (emulator_start g), ''dosbox.bat''} else run = ''.''))"
  by (rule start_launched_shape)

theorem C6_invocation_shape_witness:
  "raised (start ex_env True (ex_game\<lparr>dosbox_conf := Some ''[sdl]''\<rparr>) ex_world) = None \<and>
   launched (final (start ex_env True (ex_game\<lparr>dosbox_conf := Some ''[sdl]''\<rparr>) ex_world)) =
     [([''dosbox'', ''dosbox.bat'', ''-fullscreen'', ''-userconf'', ''-conf'', ''dosbox.conf'',
        ''-exit''],
       ''/games/foo/dosbox_drive_c'')]"
  using C6_invocation_shape [of ex_env True "ex_game\<lparr>dosbox_conf := Some ''[sdl]''\<rparr>" ex_world]
  by (simp add: model_defs ex_defs Let_def)

subsection \<open>C7: the run target of an autorun\<close>

text \<open>
  C7, as stated, fails in its second half: line 74 asks only whether the boot command
  names an existing regular file as seen from the payload directory; it asks neither
  that the file lie inside that directory nor that it be executable. Here the boot
  command is the absolute path of a file outside the payload directory: the claim's
  ``otherwise'' applies, yet the run target is that file and no script is written.
\<close>

theorem C7_outside_payload_counterexample:
  "truthy (emulator_start c7_game) \<and>
   isdir c7_world (gamedir c7_game) \<and>
   \<not> inside_dir (gamedir c7_game) (text_of (emulator_start c7_game)) \<and>
   raised (start ex_env True c7_game c7_world) = None \<and>
   launched (final (start ex_env True c7_game c7_world)) =
     [([''dosbox'', ''/opt/GAME.EXE'', ''-fullscreen'', ''-exit''], ''/games/foo/dosbox_drive_c'')] \<and>
   files (final (start ex_env True c7_game c7_world)) ''/games/foo/dosbox_drive_c/dosbox.bat'' = None"
  by (simp add: model_defs ex_defs c7_game_def c7_world_def inside_dir_def Let_def)

text \<open>
  C7, amended. When \<open>start\<close> runs with \<^verbatim>\<open>autorun=True\<close> on a title whose boot command
  is set, and the emulator is spawned: the final autorun is true, the call returns
  without waiting, and the working directory at line 74 is the payload directory. If
  the boot command, resolved against that directory (an absolute path is itself), names
  an existing regular file, the run target is the boot command and no file has been
  written since the configuration file; otherwise the run target is \<^verbatim>\<open>dosbox.bat\<close> and
  the only file written is the command script, which holds \<^verbatim>\<open>@echo off\<close>, \<^verbatim>\<open>cls\<close>
  and the boot command.
\<close>

theorem C7_autorun_run_target:
  assumes "truthy (emulator_start g)"
      and "start_prepare env g w = Inr (args, w3)"
      and "start_launch env True g w = Inr (a', argv, wl)"
  shows "a' \<and> start env True g w = \<lparr>raised = None, self = g, final = wl\<rparr> \<and>
         (\<exists>c. cwd w3 = pjoin c (gamedir g) \<and> c \<in> {cwd w, pjoin (cwd w) (path g)}) \<and>
         (if isfile w3 (text_of (emulator_start g))
          then argv = [DOSBOX env, text_of (emulator_start g)] @ args @ [''-exit''] \<and>
               files wl = files w3
          else argv = [DOSBOX env, ''dosbox.bat''] @ args @ [''-exit''] \<and>
               files wl =
                 (files w3)(abspath w3 (pjoin (gamedir g) ''dosbox.bat'') \<mapsto>
                    ''@echo off'' @ [CHR 0x0A] @ ''cls'' @ [CHR 0x0A] @ text_of (emulator_start g)))"
proof -
  define b where "b = pjoin (gamedir g) ''dosbox.bat''"
  from start_launch_Inr [OF assms(3)] assms(2) obtain run w4 where
    ps: "prepare_script b True g w3 = Inr (a', run, w4)" and
    argv: "argv = [DOSBOX env, if a' then run else ''.''] @ (if a' then args @ [''-exit''] else args)" and
    wl: "wl = popen argv w4"
    unfolding b_def by auto
  note t = prepare_script_autorun_target [OF assms(1) ps]
  have a': "a'" using t by simp
  have st: "start env True g w = \<lparr>raised = None, self = g, final = wl\<rparr>"
    using assms(3) a' by (simp add: start_def)
  have c: "\<exists>c. cwd w3 = pjoin c (gamedir g) \<and> c \<in> {cwd w, pjoin (cwd w) (path g)}"
    using start_prepare_run [OF assms(2)] by simp
  have f: "files wl = files w4" by (simp add: wl popen_def)
  show ?thesis
    using a' st c t argv f unfolding b_def [symmetric]
    by (auto split: if_splits)
qed

theorem C7_autorun_run_target_witness:
  "truthy (emulator_start ex_game) \<and>
   (\<exists>args w3 a' argv wl.
      start_prepare ex_env ex_game ex_world = Inr (args, w3) \<and>
      start_launch ex_env True ex_game ex_world = Inr (a', argv, wl) \<and>
      \<not> isfile w3 (text_of (emulator_start ex_game)) \<and>
      argv = [''dosbox'', ''dosbox.bat'', ''-fullscreen'', ''-exit''] \<and>
      files wl ''/games/foo/dosbox_drive_c/dosbox.bat'' =
        Some (''@echo off'' @ [CHR 0x0A] @ ''cls'' @ [CHR 0x0A] @ ''FOO.EXE''))"
proof -
  have t: "truthy (emulator_start ex_game)" by (simp add: truthy_def ex_game_def)
  have ex: "\<exists>args w3 a' argv wl.
      start_prepare ex_env ex_game ex_world = Inr (args, w3) \<and>
      start_launch ex_env True ex_game ex_world = Inr (a', argv, wl) \<and>
      \<not> isfile w3 (text_of (emulator_start ex_game)) \<and>
      args = [''-fullscreen''] \<and> cwd w3 = ''/games/foo/dosbox_drive_c''"
    by (simp add: model_defs ex_defs Let_def) auto
  then obtain args w3 a' argv wl where
    sp: "start_prepare ex_env ex_game ex_world = Inr (args, w3)" and
    l: "start_launch ex_env True ex_game ex_world = Inr (a', argv, wl)" and
    nf: "\<not> isfile w3 (text_of (emulator_start ex_game))" and
    a: "args = [''-fullscreen'']" and c: "cwd w3 = ''/games/foo/dosbox_drive_c''"
    by blast
  have p: "abspath w3 (pjoin (gamedir ex_game) ''dosbox.bat'') = ''/games/foo/dosbox_drive_c/dosbox.bat''"
    by (simp add: abspath_def pjoin_def is_abs_def ex_game_def c)
  from C7_autorun_run_target [OF t sp l] nf have
    "argv = [''dosbox'', ''dosbox.bat'', ''-fullscreen'', ''-exit''] \<and>
     files wl ''/games/foo/dosbox_drive_c/dosbox.bat'' =
        Some (''@echo off'' @ [CHR 0x0A] @ ''cls'' @ [CHR 0x0A] @ ''FOO.EXE'')"
    by (simp add: p a) (simp add: ex_defs text_of_def)
  with t sp l nf show ?thesis by blast
qed

subsection \<open>C8: what a save writes and what it leaves\<close>

text \<open>
  C8. \<open>write_metadata\<close> changes nothing of the document but the \<^verbatim>\<open>metadata\<close> section
  (none of it when that section is missing). In that section every key other than
  \<^verbatim>\<open>title\<close>, \<^verbatim>\<open>year\<close>, \<^verbatim>\<open>url\<close>, \<^verbatim>\<open>emulator_start\<close> and \<^verbatim>\<open>dosbox_conf\<close> keeps its
  value; each of these five holds the attribute's value when the attribute is set
  (non-empty; the URLs joined by newlines) and keeps what it held, present or absent,
  when the attribute is unset. When nothing is raised the file \<^verbatim>\<open>metadata.ini\<close> holds
  the document so obtained and no other file changes; otherwise the world is unchanged.
\<close>

theorem C8_save_frame:
  "(sections (config g) ''metadata'' = None \<longrightarrow>
      config (self (write_metadata env g w)) = config g) \<and>
   (\<forall>m. sections (config g) ''metadata'' = Some m \<longrightarrow>
      (\<exists>m'. config (self (write_metadata env g w)) =
               (config g)\<lparr>sections := (sections (config g))(''metadata'' \<mapsto> m')\<rparr> \<and>
            (\<forall>k. k \<notin> {''title'', ''year'', ''url'', ''emulator_start'', ''dosbox_conf''}
                  \<longrightarrow> m' k = m k) \<and>
            m' ''title'' = (if truthy (title g) then title g else m ''title'') \<and>
            m' ''year'' = (if truthy (year g) then year g else m ''year'') \<and>
            m' ''emulator_start'' =
              (if truthy (emulator_start g) then emulator_start g else m ''emulator_start'') \<and>
            m' ''dosbox_conf'' =
              (if truthy (dosbox_conf g) then dosbox_conf g else m ''dosbox_conf'') \<and>
            m' ''url'' =
              (case url g of
                 UNone \<Rightarrow> m ''url''
               | UStr s \<Rightarrow> if s \<noteq> [] then Some (str_join [CHR 0x0A] (map (\<lambda>c. [c]) s))
                           else m ''url''
               | UList xs \<Rightarrow> if xs \<noteq> [] then Some (str_join [CHR 0x0A] xs) else m ''url''))) \<and>
   final (write_metadata env g w) =
     (if raised (write_metadata env g w) = None
      then w\<lparr>files := (files w)(abspath w (pjoin (path g) ''metadata.ini'') \<mapsto>
                 ini_dump env (config (self (write_metadata env g w))))\<rparr>
      else w)"
proof (intro conjI allI impI)
  assume "sections (config g) ''metadata'' = None"
  then show "config (self (write_metadata env g w)) = config g"
    by (simp add: write_metadata_config)
next
  fix m
  assume m: "sections (config g) ''metadata'' = Some m"
  show "\<exists>m'. config (self (write_metadata env g w)) =
               (config g)\<lparr>sections := (sections (config g))(''metadata'' \<mapsto> m')\<rparr> \<and>
            (\<forall>k. k \<notin> {''title'', ''year'', ''url'', ''emulator_start'', ''dosbox_conf''}
                  \<longrightarrow> m' k = m k) \<and>
            m' ''title'' = (if truthy (title g) then title g else m ''title'') \<and>
            m' ''year'' = (if truthy (year g) then year g else m ''year'') \<and>
            m' ''emulator_start'' =
              (if truthy (emulator_start g) then emulator_start g else m ''emulator_start'') \<and>
            m' ''dosbox_conf'' =
              (if truthy (dosbox_conf g) then dosbox_conf g else m ''dosbox_conf'') \<and>
            m' ''url'' =
              (case url g of
                 UNone \<Rightarrow> m ''url''
               | UStr s \<Rightarrow> if s \<noteq> [] then Some (str_join [CHR 0x0A] (map (\<lambda>c. [c]) s))
                           else m ''url''
               | UList xs \<Rightarrow> if xs \<noteq> [] then Some (str_join [CHR 0x0A] xs) else m ''url'')"
  proof (intro exI [of _ "apply_fields (owned_fields g) m"] conjI)
    show "config (self (write_metadata env g w)) =
          (config g)\<lparr>sections := (sections (config g))(''metadata'' \<mapsto> apply_fields (owned_fields g) m)\<rparr>"
      using m by (simp add: write_metadata_config)
    show "\<forall>k. k \<notin> {''title'', ''year'', ''url'', ''emulator_start'', ''dosbox_conf''}
                  \<longrightarrow> apply_fields (owned_fields g) m k = m k"
      by (intro allI impI owned_other)
    show "apply_fields (owned_fields g) m ''title'' = (if truthy (title g) then title g else m ''title'')"
      by (rule owned_title)
    show "apply_fields (owned_fields g) m ''year'' = (if truthy (year g) then year g else m ''year'')"
      by (rule owned_year)
    show "apply_fields (owned_fields g) m ''emulator_start'' =
              (if truthy (emulator_start g) then emulator_start g else m ''emulator_start'')"
      by (rule owned_emulator_start)
    show "apply_fields (owned_fields g) m ''dosbox_conf'' =
              (if truthy (dosbox_conf g) then dosbox_conf g else m ''dosbox_conf'')"
      by (rule owned_dosbox_conf)
    show "apply_fields (owned_fields g) m ''url'' =
              (case url g of
                 UNone \<Rightarrow> m ''url''
               | UStr s \<Rightarrow> if s \<noteq> [] then Some (str_join [CHR 0x0A] (map (\<lambda>c. [c]) s))
                           else m ''url''
               | UList xs \<Rightarrow> if xs \<noteq> [] then Some (str_join [CHR 0x0A] xs) else m ''url'')"
      by (simp only: owned_url url_text_cases)
  qed
next
  show "final (write_metadata env g w) =
     (if raised (write_metadata env g w) = None
      then w\<lparr>files := (files w)(abspath w (pjoin (path g) ''metadata.ini'') \<mapsto>
                 ini_dump env (config (self (write_metadata env g w))))\<rparr>
      else w)"
    by (rule write_metadata_final)
qed

theorem C8_save_frame_witness:
  "sections (config c8_game) ''metadata'' =
     Some [''title'' \<mapsto> ''Foo'', ''year'' \<mapsto> ''1990'', ''emulator_start'' \<mapsto> ''FOO.EXE'',
           ''url'' \<mapsto> ''http://x/a.zip'', ''collection'' \<mapsto> ''softwarelibrary''] \<and>
   raised (write_metadata ex_env c8_game ex_world) = None \<and>
   cfg_get (config (self (write_metadata ex_env c8_game ex_world))) ''metadata'' ''title'' =
     Some ''New'' \<and>
   cfg_get (config (self (write_metadata ex_env c8_game ex_world))) ''metadata'' ''year'' =
     Some ''1990'' \<and>
   cfg_get (config (self (write_metadata ex_env c8_game ex_world))) ''metadata'' ''url'' =
     Some ''http://x/a.zip'' \<and>
   cfg_get (config (self (write_metadata ex_env c8_game ex_world))) ''metadata'' ''collection'' =
     Some ''softwarelibrary'' \<and>
   files (final (write_metadata ex_env c8_game ex_world)) ''/games/foo/metadata.ini'' =
     Some ''FOO.EXE''"
proof -
  have m: "sections (config c8_game) ''metadata'' =
     Some [''title'' \<mapsto> ''Foo'', ''year'' \<mapsto> ''1990'', ''emulator_start'' \<mapsto> ''FOO.EXE'',
           ''url'' \<mapsto> ''http://x/a.zip'', ''collection'' \<mapsto> ''softwarelibrary'']"
    by (simp add: c8_game_def c2_game_def ex_config_url_def)
  have r: "raised (write_metadata ex_env c8_game ex_world) = None"
    by (simp add: model_defs ex_defs c8_game_def c2_game_def ex_config_url_def Let_def)
  have t: "truthy (title c8_game)" "\<not> truthy (year c8_game)" "url c8_game = UList []"
    "title c8_game = Some ''New''" "path c8_game = ''/games/foo''"
    by (simp_all add: truthy_def c8_game_def c2_game_def ex_defs)
  have p: "abspath ex_world (pjoin ''/games/foo'' ''metadata.ini'') = ''/games/foo/metadata.ini''"
    by (simp add: abspath_def pjoin_def is_abs_def)
  have d: "ini_dump ex_env c = text_of (cfg_get c ''metadata'' ''emulator_start'')" for c
    by (simp add: ex_env_def)
  from C8_save_frame [of c8_game ex_env ex_world] m obtain m' where
    c: "config (self (write_metadata ex_env c8_game ex_world)) =
          (config c8_game)\<lparr>sections := (sections (config c8_game))(''metadata'' \<mapsto> m')\<rparr>" and
    k: "\<forall>k. k \<notin> {''title'', ''year'', ''url'', ''emulator_start'', ''dosbox_conf''} \<longrightarrow>
          m' k = [''title'' \<mapsto> ''Foo'', ''year'' \<mapsto> ''1990'', ''emulator_start'' \<mapsto> ''FOO.EXE'',
                  ''url'' \<mapsto> ''http://x/a.zip'', ''collection'' \<mapsto> ''softwarelibrary''] k" and
    f: "m' ''title'' = Some ''New''" "m' ''year'' = Some ''1990''" "m' ''url'' = Some ''http://x/a.zip''"
       "m' ''emulator_start'' = Some ''FOO.EXE''" and
    w: "final (write_metadata ex_env c8_game ex_world) =
          ex_world\<lparr>files := (files ex_world)(''/games/foo/metadata.ini'' \<mapsto>
             ini_dump ex_env (config (self (write_metadata ex_env c8_game ex_world))))\<rparr>"
    using r t p
    by (auto simp: c8_game_def c2_game_def ex_game_def truthy_def)
  have col: "m' ''collection'' = Some ''softwarelibrary''"
    using k by simp
  show ?thesis
    using m r f col by (simp add: w c d cfg_get_def text_of_def)
qed

subsection \<open>C9: the placeholder script\<close>

text \<open>
  C9. For a title whose boot command is unset, when no command script exists as the
  script block (lines 90-94) is reached, the emulator is spawned and the script reads
  the same after the session as before it: the script written is the single character
  newline, the call ends as \<open>write_metadata\<close> does on the record whose boot command is
  that newline, so the record's boot command is the newline and, unless the save raises,
  the document holds it under \<^verbatim>\<open>emulator_start\<close> and \<^verbatim>\<open>metadata.ini\<close> holds the
  document. This holds for either value of \<^verbatim>\<open>autorun\<close>.
\<close>

theorem C9_placeholder_is_newline:
  assumes "\<not> truthy (emulator_start g)"
      and "start_prepare env g w = Inr (args, w3)"
      and "\<not> isfile w3 (pjoin (gamedir g) ''dosbox.bat'')"
      and "start_launch env autorun g w = Inr (a', argv, wl)"
      and "read_file (pjoin (gamedir g) ''dosbox.bat'') (wait env argv wl) =
           read_file (pjoin (gamedir g) ''dosbox.bat'') wl"
  shows "read_file (pjoin (gamedir g) ''dosbox.bat'') wl = Inr [CHR 0x0A] \<and>
         start env autorun g w =
           write_metadata env (g\<lparr>emulator_start := Some [CHR 0x0A]\<rparr>) (wait env argv wl) \<and>
         emulator_start (self (start env autorun g w)) = Some [CHR 0x0A] \<and>
         (if raised (start env autorun g w) = None then
            cfg_get (config (self (start env autorun g w))) ''metadata'' ''emulator_start'' =
              Some [CHR 0x0A] \<and>
            files (final (start env autorun g w))
                (abspath (wait env argv wl) (pjoin (path g) ''metadata.ini'')) =
              Some (ini_dump env (config (self (start env autorun g w))))
          else final (start env autorun g w) = wait env argv wl)"
proof -
  define b where "b = pjoin (gamedir g) ''dosbox.bat''"
  from start_launch_Inr [OF assms(4)] assms(2) obtain run w4 where
    ps: "prepare_script b autorun g w3 = Inr (a', run, w4)" and
    wl: "wl = popen argv w4"
    unfolding b_def by auto
  have a': "\<not> a'" using start_launch_autorun [OF assms(4)] assms(1) by simp
  from prepare_script_placeholder [OF assms(1) assms(3) [folded b_def] ps] have
    w4: "w4 = w3\<lparr>files := (files w3)(abspath w3 b \<mapsto> [CHR 0x0A])\<rparr>" and
    ne: "b \<noteq> []" and nd: "abspath w3 b \<notin> dirs w3"
    by simp_all
  have rd: "read_file b wl = Inr [CHR 0x0A]"
    using ne nd by (simp add: read_file_def wl w4 popen_def abspath_def)
  then have rx: "read_file b (wait env argv wl) = Inr [CHR 0x0A]"
    using assms(5) by (simp add: b_def)
  have l: "start_launch env autorun g w = Inr (False, argv, wl)"
    using assms(4) a' by simp
  have ce: "start env autorun g w =
           write_metadata env (g\<lparr>emulator_start := Some [CHR 0x0A]\<rparr>) (wait env argv wl) \<and>
         emulator_start (self (start env autorun g w)) = Some [CHR 0x0A] \<and>
         (if raised (start env autorun g w) = None then
            cfg_get (config (self (start env autorun g w))) ''metadata'' ''emulator_start'' =
              Some [CHR 0x0A] \<and>
            files (final (start env autorun g w))
                (abspath (wait env argv wl) (pjoin (path g) ''metadata.ini'')) =
              Some (ini_dump env (config (self (start env autorun g w))))
          else final (start env autorun g w) = wait env argv wl)"
  proof -
    have e: "(if c then A else B) \<Longrightarrow> c \<Longrightarrow> A" for c A B by simp
    show ?thesis by (rule e [OF capture_effect [OF l rx [unfolded b_def]]]) simp
  qed
  from rd [unfolded b_def] ce show ?thesis by (rule conjI)
qed

theorem C9_placeholder_is_newline_witness:
  "\<not> truthy (emulator_start (ex_game\<lparr>emulator_start := None\<rparr>)) \<and>
   (\<exists>args w3 a' argv wl.
      start_prepare ex_env (ex_game\<lparr>emulator_start := None\<rparr>) ex_world = Inr (args, w3) \<and>
      \<not> isfile w3 (pjoin (gamedir (ex_game\<lparr>emulator_start := None\<rparr>)) ''dosbox.bat'') \<and>
      start_launch ex_env True (ex_game\<lparr>emulator_start := None\<rparr>) ex_world = Inr (a', argv, wl) \<and>
      read_file (pjoin (gamedir (ex_game\<lparr>emulator_start := None\<rparr>)) ''dosbox.bat'')
          (wait ex_env argv wl) =
        read_file (pjoin (gamedir (ex_game\<lparr>emulator_start := None\<rparr>)) ''dosbox.bat'') wl) \<and>
   raised (start ex_env True (ex_game\<lparr>emulator_start := None\<rparr>) ex_world) = None \<and>
   emulator_start (self (start ex_env True (ex_game\<lparr>emulator_start := None\<rparr>) ex_world)) =
     Some [CHR 0x0A] \<and>
   cfg_get (config (self (start ex_env True (ex_game\<lparr>emulator_start := None\<rparr>) ex_world)))
       ''metadata'' ''emulator_start'' = Some [CHR 0x0A] \<and>
   files (final (start ex_env True (ex_game\<lparr>emulator_start := None\<rparr>) ex_world))
       ''/games/foo/metadata.ini'' = Some [CHR 0x0A]"
proof -
  define g where "g = ex_game\<lparr>emulator_start := None\<rparr>"
  have t: "\<not> truthy (emulator_start g)" by (simp add: g_def truthy_def)
  have ex: "\<exists>args w3 a' argv wl.
      start_prepare ex_env g ex_world = Inr (args, w3) \<and>
      \<not> isfile w3 (pjoin (gamedir g) ''dosbox.bat'') \<and>
      start_launch ex_env True g ex_world = Inr (a', argv, wl) \<and>
      read_file (pjoin (gamedir g) ''dosbox.bat'') (wait ex_env argv wl) =
        read_file (pjoin (gamedir g) ''dosbox.bat'') wl"
    by (simp add: g_def model_defs ex_defs Let_def) auto
  then obtain args w3 a' argv wl where
    sp: "start_prepare ex_env g ex_world = Inr (args, w3)" and
    nf: "\<not> isfile w3 (pjoin (gamedir g) ''dosbox.bat'')" and
    l: "start_launch ex_env True g ex_world = Inr (a', argv, wl)" and
    r: "read_file (pjoin (gamedir g) ''dosbox.bat'') (wait ex_env argv wl) =
        read_file (pjoin (gamedir g) ''dosbox.bat'') wl"
    by blast
  have ok: "raised (start ex_env True g ex_world) = None"
    by (simp add: g_def model_defs ex_defs Let_def)
  have p: "abspath (wait ex_env argv wl) (pjoin (path g) ''metadata.ini'') = ''/games/foo/metadata.ini''"
    by (simp add: g_def abspath_def pjoin_def is_abs_def ex_game_def)
  have d: "ini_dump ex_env c = text_of (cfg_get c ''metadata'' ''emulator_start'')" for c
    by (simp add: ex_env_def)
  have e: "(if c then A else B) \<Longrightarrow> c \<Longrightarrow> A" for c A B by simp
  note c1 = C9_placeholder_is_newline [OF t sp nf l r, THEN conjunct2, THEN conjunct2]
  note c2 = e [OF c1 [THEN conjunct2] ok]
  from c1 [THEN conjunct1] c2 have
    "emulator_start (self (start ex_env True g ex_world)) = Some [CHR 0x0A] \<and>
     cfg_get (config (self (start ex_env True g ex_world))) ''metadata'' ''emulator_start'' =
       Some [CHR 0x0A] \<and>
     files (final (start ex_env True g ex_world)) ''/games/foo/metadata.ini'' = Some [CHR 0x0A]"
    by (simp add: p d text_of_def)
  with t ex ok show ?thesis unfolding g_def by simp
qed

subsection \<open>C10: a title without URLs and without payload\<close>

text \<open>
  C10. For every title loaded from a metadata document that has no \<^verbatim>\<open>url\<close> key, the
  loaded \<^verbatim>\<open>url\<close> attribute is \<^verbatim>\<open>None\<close>; and when the title's directory exists and its
  payload directory does not, \<open>start\<close> raises \<^verbatim>\<open>TypeError\<close> (the loop over
  \<^verbatim>\<open>self.url\<close>) after changing into the title's directory: no directory is created,
  nothing is requested from the network, nothing is spawned.
\<close>

theorem C10_missing_url_raises:
  assumes "Game_init env p w = Inr g"
      and "cfg_get (config g) ''metadata'' ''url'' = None"
      and "isdir w p"
      and "\<not> isdir w (gamedir g)"
  shows "url g = UNone \<and>
         start env autorun g w =
           \<lparr>raised = Some TypeError, self = g, final = w\<lparr>cwd := abspath w p\<rparr>\<rparr>"
proof -
  from Game_init_fields [OF assms(1)] assms(2) have u: "url g = UNone" and p: "path g = p"
    by simp_all
  have "download_files env g w = (Some TypeError, w\<lparr>cwd := abspath w p\<rparr>)"
    using u p assms(3) by (simp add: download_files_def chdir_def)
  then have "start_launch env autorun g w = Inl (TypeError, w\<lparr>cwd := abspath w p\<rparr>)"
    using assms(4) by (simp add: start_launch_def start_prepare_def ensure_payload_def)
  then show ?thesis using u by (simp add: start_def)
qed

theorem C10_missing_url_raises_witness:
  "Game_init ex_env ''/games/foo'' (ex_world\<lparr>dirs := {''/games/foo''}\<rparr>) = Inr ex_game \<and>
   cfg_get (config ex_game) ''metadata'' ''url'' = None \<and>
   isdir (ex_world\<lparr>dirs := {''/games/foo''}\<rparr>) ''/games/foo'' \<and>
   \<not> isdir (ex_world\<lparr>dirs := {''/games/foo''}\<rparr>) (gamedir ex_game) \<and>
   url ex_game = UNone \<and>
   start ex_env True ex_game (ex_world\<lparr>dirs := {''/games/foo''}\<rparr>) =
     \<lparr>raised = Some TypeError, self = ex_game,
      final = ex_world\<lparr>dirs := {''/games/foo''}, cwd := ''/games/foo''\<rparr>\<rparr>"
proof -
  have a: "Game_init ex_env ''/games/foo'' (ex_world\<lparr>dirs := {''/games/foo''}\<rparr>) = Inr ex_game"
    by (simp add: Game_init_def config_read_def model_defs ex_defs)
  have b: "cfg_get (config ex_game) ''metadata'' ''url'' = None"
    by (simp add: cfg_get_def ex_defs)
  have c: "isdir (ex_world\<lparr>dirs := {''/games/foo''}\<rparr>) ''/games/foo''"
    by (simp add: isdir_def abspath_def pjoin_def is_abs_def ex_defs)
  have d: "\<not> isdir (ex_world\<lparr>dirs := {''/games/foo''}\<rparr>) (gamedir ex_game)"
    by (simp add: isdir_def abspath_def pjoin_def is_abs_def ex_defs)
  have e: "abspath (ex_world\<lparr>dirs := {''/games/foo''}\<rparr>) ''/games/foo'' = ''/games/foo''"
    by (simp add: abspath_def pjoin_def is_abs_def)
  show ?thesis
    using a b c d C10_missing_url_raises [OF a b c d, of True] by (simp add: e)
qed

end
